theory Spec2Isabelle
  imports Complex_Main "HOL-Library.Multiset" "HOL-Library.Log_Nat"
begin

section \<open>Data model (types/job.ts)\<close>

text \<open>
  \<^verbatim>\<open>export type JobStatus = 'Applied' | 'Interview' | 'Offer' | 'Accepted' | 'Rejected';\<close>
  The closed union of string literals is a datatype; the constructors are the literals.
\<close>

datatype JobStatus = Applied | Interview | Offer | Accepted | Rejected

text \<open>
  \<^verbatim>\<open>interface Job\<close>. The field \<^verbatim>\<open>id\<close> is written \<open>id_job\<close> (HOL has a constant \<open>id\<close>);
  the optional \<^verbatim>\<open>notes?\<close> is the option \<open>notes_job\<close> (\<open>notes\<close> is a keyword).
\<close>

record Job =
  id_job :: string
  company :: string
  role :: string
  dateApplied :: string
  status :: JobStatus
  notes_job :: "string option"
  updatedAt :: string

section \<open>JavaScript numbers: the arithmetic of the rates\<close>

text \<open>
  The rates are computed as \<^verbatim>\<open>Math.round((a / b) * 100)\<close> on JavaScript numbers, which are
  IEEE 754 binary64 values: the quotient is rounded to 53 significant bits, the product is
  rounded again, and only then \<^verbatim>\<open>Math.round\<close> is taken. Every finite double is a rational,
  so the values are modelled as rationals and each operation rounds its exact result to
  the nearest double, ties to the even significand. The exponent range is not modelled:
  the operands here are counts of array elements (below \<open>2^32\<close>) and the constant 100, far
  from overflow and from the subnormal range.
\<close>

definition binade :: "rat \<Rightarrow> int" where
  \<comment> \<open>for \<open>x > 0\<close>: the exponent \<open>e\<close> with \<open>2^e \<le> x < 2^(e+1)\<close>\<close>
  "binade x =
     (let (p, q) = quotient_of x; e = bitlen p - bitlen q
      in if 2 powi e \<le> x then e else e - 1)"

definition roundTiesToEven :: "rat \<Rightarrow> int" where
  "roundTiesToEven x =
     (let f = \<lfloor>x\<rfloor>; r = x - of_int f
      in if r < 1 / 2 then f else if 1 / 2 < r then f + 1
         else if even f then f else f + 1)"

definition toDouble :: "rat \<Rightarrow> rat" where
  \<comment> \<open>round to 53 significant bits: the unit in the last place of \<open>x\<close> is \<open>2^(binade x - 52)\<close>\<close>
  "toDouble x =
     (if x = 0 then 0
      else let ulp = 2 powi (binade \<bar>x\<bar> - 52)
           in sgn x * of_int (roundTiesToEven (\<bar>x\<bar> / ulp)) * ulp)"

definition js_div :: "rat \<Rightarrow> rat \<Rightarrow> rat" where
  \<comment> \<open>\<^verbatim>\<open>a / b\<close>; the source evaluates it only under a guard \<^verbatim>\<open>b > 0\<close>\<close>
  "js_div a b = toDouble (a / b)"

definition js_mul :: "rat \<Rightarrow> rat \<Rightarrow> rat" where
  "js_mul a b = toDouble (a * b)"

definition Math_round :: "rat \<Rightarrow> int" where
  \<comment> \<open>the nearest integer, a tie going towards \<open>+\<infinity>\<close>\<close>
  "Math_round x = \<lfloor>x + 1 / 2\<rfloor>"

definition percentRounded :: "nat \<Rightarrow> nat \<Rightarrow> int" where
  \<comment> \<open>\<^verbatim>\<open>Math.round((a / b) * 100)\<close>\<close>
  "percentRounded a b = Math_round (js_mul (js_div (of_nat a) (of_nat b)) 100)"

section \<open>Dates: the \<^verbatim>\<open>Date\<close> constructor and date-fns \<^verbatim>\<open>format\<close>\<close>

text \<open>
  \<^verbatim>\<open>format(new Date(job.dateApplied), 'MMM yyyy')\<close> calls two functions that are not part
  of the repository. What \<^verbatim>\<open>new Date(s)\<close> answers for a string depends on the host (its
  parser for non-ISO strings, its time zone), so the constructor is a parameter
  \<open>newDate\<close> of the model. Its result is either the Invalid Date or a date, of which the
  pattern \<^verbatim>\<open>'MMM yyyy'\<close> reads two things only: \<^verbatim>\<open>getFullYear()\<close> and \<^verbatim>\<open>getMonth()\<close> in
  local time.
\<close>

datatype Month = Jan | Feb | Mar | Apr | May | Jun | Jul | Aug | Sep | Oct | Nov | Dec

datatype JsDate = InvalidDate | LocalDate int Month

datatype error = RangeError

text \<open>
  date-fns (version 2 and later, the versions that know the token \<^verbatim>\<open>yyyy\<close>):
  \<^verbatim>\<open>format\<close> throws \<^verbatim>\<open>RangeError: Invalid time value\<close> on an invalid date; \<^verbatim>\<open>MMM\<close> is the
  abbreviated month of the default locale; \<^verbatim>\<open>yyyy\<close> is the year, or \<open>1 - year\<close> for a
  year that is not positive, padded with zeros to four digits
  (\<^verbatim>\<open>addLeadingZeros(year, token.length)\<close>).
\<close>

fun monthAbbrev :: "Month \<Rightarrow> string" where
  "monthAbbrev Jan = ''Jan''"
| "monthAbbrev Feb = ''Feb''"
| "monthAbbrev Mar = ''Mar''"
| "monthAbbrev Apr = ''Apr''"
| "monthAbbrev May = ''May''"
| "monthAbbrev Jun = ''Jun''"
| "monthAbbrev Jul = ''Jul''"
| "monthAbbrev Aug = ''Aug''"
| "monthAbbrev Sep = ''Sep''"
| "monthAbbrev Oct = ''Oct''"
| "monthAbbrev Nov = ''Nov''"
| "monthAbbrev Dec = ''Dec''"

definition digitChar :: "nat \<Rightarrow> char" where
  "digitChar d = ''0123456789'' ! d"

fun decimal :: "nat \<Rightarrow> string" where
  "decimal n = (if n < 10 then [digitChar n] else decimal (n div 10) @ [digitChar (n mod 10)])"

declare decimal.simps [simp del]

definition addLeadingZeros :: "nat \<Rightarrow> nat \<Rightarrow> string" where
  "addLeadingZeros number targetLength =
     replicate (targetLength - length (decimal number)) (CHR ''0'') @ decimal number"

fun format_MMM_yyyy :: "JsDate \<Rightarrow> error + string" where
  "format_MMM_yyyy InvalidDate = Inl RangeError"
| "format_MMM_yyyy (LocalDate signedYear month) =
     (let year = (if signedYear > 0 then signedYear else 1 - signedYear)
      in Inr (monthAbbrev month @ '' '' @ addLeadingZeros (nat year) 4))"

section \<open>The aggregation of the dashboard (components/Dashboard.tsx)\<close>

text \<open>
  Both \<^verbatim>\<open>reduce\<close> passes build an object by \<^verbatim>\<open>acc[k] = (acc[k] || 0) + 1\<close>. The object is
  an association list in insertion order: an existing key is updated in place, a new
  key is appended. That is the order \<^verbatim>\<open>Object.entries\<close> reads for keys that are not
  array indices, and neither a status nor a label that begins with a month is one.
  The counts are natural numbers: they are bounded by the length of an array, so the
  additions are exact.
\<close>

fun increment :: "('k \<times> nat) list \<Rightarrow> 'k \<Rightarrow> ('k \<times> nat) list" where
  "increment [] k = [(k, 1)]"
| "increment ((k', n) # acc) k =
     (if k' = k then (k', n + 1) # acc else (k', n) # increment acc k)"

definition orZero :: "('k \<times> nat) list \<Rightarrow> 'k \<Rightarrow> nat" where
  \<comment> \<open>\<^verbatim>\<open>acc[k] || 0\<close>\<close>
  "orZero acc k = (case map_of acc k of None \<Rightarrow> 0 | Some n \<Rightarrow> n)"

text \<open>\<^verbatim>\<open>const STATUS_ORDER = ['Applied', 'Interview', 'Offer', 'Accepted', 'Rejected']\<close>\<close>

definition STATUS_ORDER :: "JobStatus list" where
  "STATUS_ORDER = [Applied, Interview, Offer, Accepted, Rejected]"

text \<open>\<^verbatim>\<open>getStatusColor(status, theme)\<close>; of the theme only \<^verbatim>\<open>theme.palette.mode === 'dark'\<close> is read.\<close>

fun getStatusColor :: "JobStatus \<Rightarrow> bool \<Rightarrow> string" where
  "getStatusColor Applied dark = (if dark then ''#5d8ffc'' else ''#4e73df'')"
| "getStatusColor Interview dark = (if dark then ''#ffd54f'' else ''#f6c23e'')"
| "getStatusColor Offer dark = (if dark then ''#4dd0e1'' else ''#36b9cc'')"
| "getStatusColor Accepted dark = (if dark then ''#69f0ae'' else ''#1cc88a'')"
| "getStatusColor Rejected dark = (if dark then ''#ff6b6b'' else ''#e74a3b'')"

text \<open>
  The entries of \<^verbatim>\<open>statusData\<close> and of \<^verbatim>\<open>monthlyData\<close>. The field \<^verbatim>\<open>value\<close> is written
  \<open>value_sd\<close> (\<open>value\<close> is a keyword) and the \<^verbatim>\<open>name\<close> of a month \<open>name_md\<close>.
\<close>

record StatusData =
  name :: JobStatus
  value_sd :: nat
  color :: string
  lightColor :: string

record MonthlyData =
  name_md :: string
  Applications :: nat

text \<open>What \<^verbatim>\<open>console.log\<close> is given: the two debug lines of the source.\<close>

datatype logEntry =
    LogStatus JobStatus nat           \<comment> \<open>\<^verbatim>\<open>`Status: ${status}, Count: ${value}`\<close>\<close>
  | LogStatusData "StatusData list"   \<comment> \<open>\<^verbatim>\<open>'Status Data:', statusData\<close>\<close>

text \<open>The object the \<^verbatim>\<open>useMemo\<close> callback returns.\<close>

record DerivedMetrics =
  statusData :: "StatusData list"
  monthlyData :: "MonthlyData list"
  totalJobs :: nat
  successRate :: int
  successJobs :: nat
  applicationToInterviewRate :: int
  interviewToOfferRate :: int
  offerToAcceptanceRate :: int
  interviewCount :: nat
  offerCount :: nat
  appliedCount :: nat

definition statusCounts :: "Job list \<Rightarrow> (JobStatus \<times> nat) list" where
  "statusCounts jobs = foldl (\<lambda>acc job. increment acc (status job)) [] jobs"

definition statusEntry :: "bool \<Rightarrow> (JobStatus \<times> nat) list \<Rightarrow> JobStatus \<Rightarrow> StatusData" where
  "statusEntry dark counts st =
     (let color = getStatusColor st dark; value = orZero counts st
      in \<lparr>name = st, value_sd = value, color = color, lightColor = color @ ''33''\<rparr>)"

text \<open>
  One step of the second \<^verbatim>\<open>reduce\<close>. \<^verbatim>\<open>if (job.dateApplied)\<close> is false for the empty
  string only; an exception of \<^verbatim>\<open>format\<close> leaves the \<^verbatim>\<open>reduce\<close>, so an error is kept by
  the steps that would follow.
\<close>

fun monthlyStep ::
  "(string \<Rightarrow> JsDate) \<Rightarrow> error + (string \<times> nat) list \<Rightarrow> Job \<Rightarrow> error + (string \<times> nat) list" where
  "monthlyStep newDate (Inl e) job = Inl e"
| "monthlyStep newDate (Inr acc) job =
     (if dateApplied job \<noteq> [] then
        (case format_MMM_yyyy (newDate (dateApplied job)) of
           Inl e \<Rightarrow> Inl e
         | Inr month \<Rightarrow> Inr (increment acc month))
      else Inr acc)"

definition monthlyCounts :: "(string \<Rightarrow> JsDate) \<Rightarrow> Job list \<Rightarrow> error + (string \<times> nat) list" where
  "monthlyCounts newDate jobs = foldl (monthlyStep newDate) (Inr []) jobs"

definition findValue :: "StatusData list \<Rightarrow> JobStatus \<Rightarrow> nat" where
  \<comment> \<open>\<^verbatim>\<open>statusData.find(s => s.name === st)?.value || 0\<close>\<close>
  "findValue sd st = (case find (\<lambda>s. name s = st) sd of None \<Rightarrow> 0 | Some s \<Rightarrow> value_sd s)"

text \<open>
  The callback of \<^verbatim>\<open>useMemo\<close>. It reads the jobs, the mode of the theme and the host's
  \<^verbatim>\<open>Date\<close>; it writes to the console, which is passed in and returned. A call that throws
  has written its debug lines before. The context always provides an array, so of the
  guard \<^verbatim>\<open>!jobs || jobs.length === 0\<close> the second test decides.
\<close>

definition Dashboard_useMemo ::
  "bool \<Rightarrow> (string \<Rightarrow> JsDate) \<Rightarrow> Job list \<Rightarrow> logEntry list
     \<Rightarrow> logEntry list \<times> (error + DerivedMetrics)" where
  "Dashboard_useMemo dark newDate jobs console =
     (if length jobs = 0 then
        (console,
         Inr \<lparr>statusData = [], monthlyData = [], totalJobs = 0, successRate = 0,
              successJobs = 0, applicationToInterviewRate = 0, interviewToOfferRate = 0,
              offerToAcceptanceRate = 0, interviewCount = 0, offerCount = 0,
              appliedCount = 0\<rparr>)
      else
        let counts = statusCounts jobs;
            sd = map (statusEntry dark counts) STATUS_ORDER;
            console' = console @ map (\<lambda>s. LogStatus (name s) (value_sd s)) sd @ [LogStatusData sd]
        in case monthlyCounts newDate jobs of
             Inl e \<Rightarrow> (console', Inl e)
           | Inr months \<Rightarrow>
               let md = map (\<lambda>(n, a). \<lparr>name_md = n, Applications = a\<rparr>) months;
                   accepted = findValue sd Accepted;
                   interviews = findValue sd Interview;
                   offers = findValue sd Offer;
                   applied = findValue sd Applied
               in (console',
                   Inr \<lparr>statusData = sd, monthlyData = md, totalJobs = length jobs,
                        successRate =
                          (if length jobs > 0 then percentRounded accepted (length jobs) else 0),
                        successJobs = accepted,
                        applicationToInterviewRate =
                          (if applied > 0 then percentRounded interviews applied else 0),
                        interviewToOfferRate =
                          (if interviews > 0 then percentRounded offers interviews else 0),
                        offerToAcceptanceRate =
                          (if offers > 0 then percentRounded accepted offers else 0),
                        interviewCount = interviews, offerCount = offers,
                        appliedCount = applied\<rparr>))"

text \<open>The value of a call, the console left aside.\<close>

definition metricsOf :: "bool \<Rightarrow> (string \<Rightarrow> JsDate) \<Rightarrow> Job list \<Rightarrow> error + DerivedMetrics" where
  "metricsOf dark newDate jobs = snd (Dashboard_useMemo dark newDate jobs [])"

subsection \<open>The same callback, with the records in a store\<close>

text \<open>
  The callback takes no argument: it reads the array \<^verbatim>\<open>jobs\<close> that the context holds, an
  object shared with the rest of the application, whose elements are the record
  objects. To say what a call writes, the objects are kept in a store, a list indexed
  by address. Each \<^verbatim>\<open>reduce\<close> starts from a new object \<^verbatim>\<open>{}\<close> and assigns to it in every
  step (\<^verbatim>\<open>acc[k] = ...\<close>, the only assignments of the callback to an object); the arrays
  and the object that the callback builds afterwards are not written again and stay
  values. A reference that is not that of an array makes \<^verbatim>\<open>!jobs\<close> true.
\<close>

datatype obj =
    JobObj Job
  | JobArray "nat list"
  | StatusTally "(JobStatus \<times> nat) list"
  | MonthTally "(string \<times> nat) list"

type_synonym store = "obj list"

definition deref :: "store \<Rightarrow> nat \<Rightarrow> obj option" where
  "deref h a = (if a < length h then Some (h ! a) else None)"

definition allocate :: "store \<Rightarrow> obj \<Rightarrow> store \<times> nat" where
  "allocate h ob = (h @ [ob], length h)"

definition jobAt :: "store \<Rightarrow> nat \<Rightarrow> Job option" where
  "jobAt h a = (case deref h a of Some (JobObj job) \<Rightarrow> Some job | _ \<Rightarrow> None)"

definition jobsAt :: "store \<Rightarrow> nat \<Rightarrow> Job list option" where
  \<comment> \<open>the list of records that a reference to an array of record objects stands for\<close>
  "jobsAt h r = (case deref h r of Some (JobArray refs) \<Rightarrow> those (map (jobAt h) refs) | _ \<Rightarrow> None)"

text \<open>
  The steps of the two \<^verbatim>\<open>reduce\<close> passes: \<open>a\<close> and \<open>b\<close> are the addresses of the
  accumulators, \<open>ref\<close> is the element of the array. (The last case of each is for a
  store that is not one of records; no theorem is about it.)
\<close>

fun tallyStatus :: "nat \<Rightarrow> store \<Rightarrow> nat \<Rightarrow> store" where
  "tallyStatus a h ref =
     (case (deref h a, deref h ref) of
        (Some (StatusTally acc), Some (JobObj job)) \<Rightarrow>
          h[a := StatusTally (increment acc (status job))]
      | _ \<Rightarrow> h)"

fun tallyMonth ::
  "(string \<Rightarrow> JsDate) \<Rightarrow> nat \<Rightarrow> store \<times> error option \<Rightarrow> nat \<Rightarrow> store \<times> error option" where
  "tallyMonth newDate b (h, Some e) ref = (h, Some e)"
| "tallyMonth newDate b (h, None) ref =
     (case (deref h b, deref h ref) of
        (Some (MonthTally acc), Some (JobObj job)) \<Rightarrow>
          if dateApplied job \<noteq> [] then
            (case format_MMM_yyyy (newDate (dateApplied job)) of
               Inl e \<Rightarrow> (h, Some e)
             | Inr month \<Rightarrow> (h[b := MonthTally (increment acc month)], None))
          else (h, None)
      | _ \<Rightarrow> (h, None))"

definition Dashboard_useMemo_store ::
  "bool \<Rightarrow> (string \<Rightarrow> JsDate) \<Rightarrow> nat \<Rightarrow> store \<times> logEntry list
     \<Rightarrow> (store \<times> logEntry list) \<times> (error + DerivedMetrics)" where
  "Dashboard_useMemo_store dark newDate r world =
     (case world of (h, console) \<Rightarrow>
        let refs = (case deref h r of Some (JobArray refs) \<Rightarrow> refs | _ \<Rightarrow> [])
        in if length refs = 0 then
             ((h, console),
              Inr \<lparr>statusData = [], monthlyData = [], totalJobs = 0, successRate = 0,
                   successJobs = 0, applicationToInterviewRate = 0, interviewToOfferRate = 0,
                   offerToAcceptanceRate = 0, interviewCount = 0, offerCount = 0,
                   appliedCount = 0\<rparr>)
           else
             let (h1, a) = allocate h (StatusTally []);
                 h2 = foldl (tallyStatus a) h1 refs;
                 counts = (case deref h2 a of Some (StatusTally acc) \<Rightarrow> acc | _ \<Rightarrow> []);
                 sd = map (statusEntry dark counts) STATUS_ORDER;
                 console' =
                   console @ map (\<lambda>s. LogStatus (name s) (value_sd s)) sd @ [LogStatusData sd];
                 (h3, b) = allocate h2 (MonthTally []);
                 (h4, thrown) = foldl (tallyMonth newDate b) (h3, None) refs
             in case thrown of
                  Some e \<Rightarrow> ((h4, console'), Inl e)
                | None \<Rightarrow>
                    let months = (case deref h4 b of Some (MonthTally acc) \<Rightarrow> acc | _ \<Rightarrow> []);
                        md = map (\<lambda>(n, a). \<lparr>name_md = n, Applications = a\<rparr>) months;
                        accepted = findValue sd Accepted;
                        interviews = findValue sd Interview;
                        offers = findValue sd Offer;
                        applied = findValue sd Applied
                    in ((h4, console'),
                        Inr \<lparr>statusData = sd, monthlyData = md, totalJobs = length refs,
                             successRate =
                               (if length refs > 0 then percentRounded accepted (length refs)
                                else 0),
                             successJobs = accepted,
                             applicationToInterviewRate =
                               (if applied > 0 then percentRounded interviews applied else 0),
                             interviewToOfferRate =
                               (if interviews > 0 then percentRounded offers interviews else 0),
                             offerToAcceptanceRate =
                               (if offers > 0 then percentRounded accepted offers else 0),
                             interviewCount = interviews, offerCount = offers,
                             appliedCount = applied\<rparr>))"

text \<open>
  Hosts for the date-only strings \<^verbatim>\<open>YYYY-MM-DD\<close>, the strings that the form of the
  application writes. ECMAScript reads such a string, when it names a day of the
  calendar, as midnight UTC of that day, while \<^verbatim>\<open>getFullYear\<close> and \<^verbatim>\<open>getMonth\<close>, which
  \<^verbatim>\<open>format\<close> reads, are in local time. At midnight UTC local time is the same day on a
  host at or east of UTC, and the evening of the day before on a host whose clock is
  behind UTC: there the first day of a month lies in the month before.
\<close>

definition digitVal :: "char \<Rightarrow> nat option" where
  "digitVal c = (let k = of_char c :: nat in if 48 \<le> k \<and> k \<le> 57 then Some (k - 48) else None)"

fun numeral10 :: "string \<Rightarrow> nat option" where
  "numeral10 [] = Some 0"
| "numeral10 cs =
     (case (numeral10 (butlast cs), digitVal (last cs)) of
        (Some n, Some d) \<Rightarrow> Some (10 * n + d)
      | _ \<Rightarrow> None)"

definition monthOf :: "nat \<Rightarrow> Month option" where
  "monthOf m = (if 1 \<le> m \<and> m \<le> 12
                then Some ([Jan, Feb, Mar, Apr, May, Jun, Jul, Aug, Sep, Oct, Nov, Dec] ! (m - 1))
                else None)"

definition daysInMonth :: "nat \<Rightarrow> Month \<Rightarrow> nat" where
  "daysInMonth y m =
     (if m = Feb then (if y mod 4 = 0 \<and> (y mod 100 \<noteq> 0 \<or> y mod 400 = 0) then 29 else 28)
      else if m \<in> {Apr, Jun, Sep, Nov} then 30 else 31)"

definition isoCalendar :: "string \<Rightarrow> (nat \<times> Month \<times> nat) option" where
  \<comment> \<open>year, month and day of a date-only string that names a day of the calendar\<close>
  "isoCalendar s =
     (if length s = 10 \<and> s ! 4 = CHR ''-'' \<and> s ! 7 = CHR ''-'' then
        (case (numeral10 (take 4 s), numeral10 (take 2 (drop 5 s)), numeral10 (drop 8 s)) of
           (Some y, Some m, Some d) \<Rightarrow>
             (case monthOf m of
                Some mo \<Rightarrow> if 1 \<le> d \<and> d \<le> daysInMonth y mo then Some (y, mo, d) else None
              | None \<Rightarrow> None)
         | _ \<Rightarrow> None)
      else None)"

fun previousMonth :: "int \<times> Month \<Rightarrow> int \<times> Month" where
  "previousMonth (y, Jan) = (y - 1, Dec)"
| "previousMonth (y, Feb) = (y, Jan)"
| "previousMonth (y, Mar) = (y, Feb)"
| "previousMonth (y, Apr) = (y, Mar)"
| "previousMonth (y, May) = (y, Apr)"
| "previousMonth (y, Jun) = (y, May)"
| "previousMonth (y, Jul) = (y, Jun)"
| "previousMonth (y, Aug) = (y, Jul)"
| "previousMonth (y, Sep) = (y, Aug)"
| "previousMonth (y, Oct) = (y, Sep)"
| "previousMonth (y, Nov) = (y, Oct)"
| "previousMonth (y, Dec) = (y, Nov)"

definition localMonthOf :: "bool \<Rightarrow> string \<Rightarrow> (int \<times> Month) option" where
  \<comment> \<open>year and month, in local time, of midnight UTC of the day a date-only string names;
      \<open>behind\<close> says that the clock of the host is behind UTC\<close>
  "localMonthOf behind s =
     (case isoCalendar s of
        Some (y, mo, d) \<Rightarrow>
          Some (if behind \<and> d = 1 then previousMonth (int y, mo) else (int y, mo))
      | None \<Rightarrow> None)"

text \<open>
  A host for evaluating examples: it reads the date-only strings as above; every other
  string is the Invalid Date here (as it is on every host for a string without a
  digit). \<open>isoDate\<close> is the host whose local time is UTC.
\<close>

definition hostDate :: "bool \<Rightarrow> string \<Rightarrow> JsDate" where
  "hostDate behind s =
     (case localMonthOf behind s of Some (y, mo) \<Rightarrow> LocalDate y mo | None \<Rightarrow> InvalidDate)"

definition isoDate :: "string \<Rightarrow> JsDate" where
  "isoDate s = hostDate False s"

section \<open>The creation form (components/JobForm.tsx) and the status selector of a row\<close>

text \<open>
  The state of \<^verbatim>\<open>JobForm\<close> is its six \<^verbatim>\<open>useState\<close> cells; the names carry the suffix
  \<open>_form\<close> since \<open>Job\<close> has fields of the same names.
\<close>

record FormState =
  open_form :: bool
  company_form :: string
  role_form :: string
  dateApplied_form :: string
  status_form :: JobStatus
  error_form :: string
  loading_form :: bool

text \<open>The argument of \<^verbatim>\<open>addJob\<close> as the form builds it (no \<^verbatim>\<open>id\<close>, \<^verbatim>\<open>updatedAt\<close> or \<^verbatim>\<open>notes\<close>).\<close>

record NewJob =
  company_new :: string
  role_new :: string
  dateApplied_new :: string
  status_new :: JobStatus

text \<open>
  The \<^verbatim>\<open>MenuItem\<close>s of the two status selectors, in the order of the source: those of
  the dialog of \<^verbatim>\<open>JobForm\<close> and those of a row of \<^verbatim>\<open>JobList\<close>.
\<close>

definition JobForm_statusItems :: "JobStatus list" where
  "JobForm_statusItems = [Applied, Interview, Offer, Rejected]"

definition JobList_statusItems :: "JobStatus list" where
  "JobList_statusItems = [Applied, Interview, Offer, Accepted, Rejected]"

text \<open>
  What the user and the store can do to the form. Choosing a status is choosing one of
  the menu items, given by its position; \<open>Submit ok\<close> says whether the promise of
  \<^verbatim>\<open>addJob\<close> resolves.
\<close>

datatype FormEvent =
    ClickOpen
  | ChangeCompany string
  | ChangeRole string
  | ChangeDate string
  | SelectStatus nat
  | Submit bool
  | Close

text \<open>
  \<^verbatim>\<open>String.prototype.trim\<close> strips the white space and the line terminators of
  ECMAScript from both ends. A character of the model is a code unit below 256; of
  the code units that \<^verbatim>\<open>trim\<close> strips, those below 256 are the six ASCII ones and the
  no-break space U+00A0.
\<close>

definition isWhiteSpace :: "char \<Rightarrow> bool" where
  "isWhiteSpace c = (of_char c \<in> {9, 10, 11, 12, 13, 32, 160 :: nat})"

definition trim :: "string \<Rightarrow> string" where
  "trim s = rev (dropWhile isWhiteSpace (rev (dropWhile isWhiteSpace s)))"

text \<open>\<open>today\<close> is \<^verbatim>\<open>new Date().toISOString().split('T')[0]\<close>, read from the clock.\<close>

definition initialForm :: "string \<Rightarrow> FormState" where
  "initialForm today =
     \<lparr>open_form = False, company_form = [], role_form = [], dateApplied_form = today,
      status_form = Applied, error_form = [], loading_form = False\<rparr>"

definition handleClose :: "string \<Rightarrow> FormState \<Rightarrow> FormState" where
  "handleClose today s =
     s\<lparr>open_form := False, company_form := [], role_form := [], dateApplied_form := today,
       status_form := Applied, error_form := []\<rparr>"

definition handleSubmit :: "string \<Rightarrow> bool \<Rightarrow> FormState \<Rightarrow> FormState \<times> NewJob option" where
  "handleSubmit today ok s =
     (if trim (company_form s) = [] \<or> trim (role_form s) = [] then
        (s\<lparr>error_form := ''Company and role are required''\<rparr>, None)
      else
        let job = \<lparr>company_new = trim (company_form s), role_new = trim (role_form s),
                   dateApplied_new = dateApplied_form s, status_new = status_form s\<rparr>
        in if ok then ((handleClose today (s\<lparr>error_form := []\<rparr>))\<lparr>loading_form := False\<rparr>, Some job)
           else (s\<lparr>error_form := ''Failed to add job. Please try again.'',
                   loading_form := False\<rparr>, Some job))"

fun formStep :: "string \<Rightarrow> FormState \<Rightarrow> FormEvent \<Rightarrow> FormState \<times> NewJob option" where
  "formStep today s ClickOpen = (s\<lparr>open_form := True\<rparr>, None)"
| "formStep today s (ChangeCompany v) = (s\<lparr>company_form := v\<rparr>, None)"
| "formStep today s (ChangeRole v) = (s\<lparr>role_form := v\<rparr>, None)"
| "formStep today s (ChangeDate v) = (s\<lparr>dateApplied_form := v\<rparr>, None)"
| "formStep today s (SelectStatus i) =
     (if i < length JobForm_statusItems then s\<lparr>status_form := JobForm_statusItems ! i\<rparr> else s,
      None)"
| "formStep today s (Submit ok) = handleSubmit today ok s"
| "formStep today s Close = (handleClose today s, None)"

text \<open>
  A session of the form: the events in order, each with the date the clock shows when
  it happens; the result is the last state and the arguments of the calls of
  \<^verbatim>\<open>addJob\<close>, in order.
\<close>

fun runForm :: "FormState \<Rightarrow> (string \<times> FormEvent) list \<Rightarrow> FormState \<times> NewJob list" where
  "runForm s [] = (s, [])"
| "runForm s ((today, ev) # evs) =
     (let (s', sent) = formStep today s ev; (s'', rest) = runForm s' evs
      in (s'', (case sent of None \<Rightarrow> [] | Some j \<Rightarrow> [j]) @ rest))"

section \<open>Notions the statements use\<close>

definition countStatus :: "Job list \<Rightarrow> JobStatus \<Rightarrow> nat" where
  \<comment> \<open>the number of records with a status\<close>
  "countStatus jobs st = length (filter (\<lambda>job. status job = st) jobs)"

definition dated :: "Job list \<Rightarrow> Job list" where
  \<comment> \<open>the records that pass \<^verbatim>\<open>if (job.dateApplied)\<close>\<close>
  "dated jobs = filter (\<lambda>job. dateApplied job \<noteq> []) jobs"

definition monthLabel :: "(string \<Rightarrow> JsDate) \<Rightarrow> Job \<Rightarrow> error + string" where
  "monthLabel newDate job = format_MMM_yyyy (newDate (dateApplied job))"

definition firstOccurrences :: "'a list \<Rightarrow> 'a list" where
  \<comment> \<open>the distinct elements, in the order in which each occurs first\<close>
  "firstOccurrences xs = rev (remdups (rev xs))"




definition debugLines :: "bool \<Rightarrow> Job list \<Rightarrow> logEntry list" where
  \<comment> \<open>what a call on these records gives to \<^verbatim>\<open>console.log\<close>: for a list that is not empty,
      a line for each status in display order with the number of its records, then
      \<^verbatim>\<open>statusData\<close>\<close>
  "debugLines dark jobs =
     (if jobs = [] then []
      else map (\<lambda>st. LogStatus st (countStatus jobs st)) STATUS_ORDER @
           [LogStatusData
              (map (\<lambda>st. \<lparr>name = st, value_sd = countStatus jobs st,
                           color = getStatusColor st dark,
                           lightColor = getStatusColor st dark @ ''33''\<rparr>) STATUS_ORDER)])"

definition exceptMonthOrder :: "error + DerivedMetrics \<Rightarrow> error + DerivedMetrics \<Rightarrow> bool" where
  \<comment> \<open>the same outcome, but for the order of the entries of \<open>monthlyData\<close>\<close>
  "exceptMonthOrder r r' =
     (case (r, r') of
        (Inl e, Inl e') \<Rightarrow> e = e'
      | (Inr m, Inr m') \<Rightarrow>
          m\<lparr>monthlyData := []\<rparr> = m'\<lparr>monthlyData := []\<rparr>
          \<and> mset (monthlyData m) = mset (monthlyData m')
      | _ \<Rightarrow> False)"




subsection \<open>Records for the examples\<close>

definition exampleJob :: "string \<Rightarrow> JobStatus \<Rightarrow> Job" where
  "exampleJob d st = \<lparr>id_job = ''id'', company = ''Acme'', role = ''Engineer'', dateApplied = d,
               status = st, notes_job = None, updatedAt = ''2024-05-01T00:00:00.000Z''\<rparr>"

text \<open>
  The example of the specification (three Applied, two Interview, one Offer, one
  Accepted), with dates in two months, out of order, and one record without a date.
\<close>

definition exampleJobs :: "Job list" where
  "exampleJobs =
     [exampleJob ''2024-04-10'' Applied, exampleJob ''2024-03-15'' Interview, exampleJob ''2024-04-20'' Applied,
      exampleJob [] Offer, exampleJob ''2024-03-05'' Accepted, exampleJob ''2024-04-11'' Interview,
      exampleJob ''2024-03-25'' Applied]"

definition exampleMetrics :: DerivedMetrics where
  "exampleMetrics =
     \<lparr>statusData =
        [\<lparr>name = Applied, value_sd = 3, color = ''#4e73df'', lightColor = ''#4e73df33''\<rparr>,
         \<lparr>name = Interview, value_sd = 2, color = ''#f6c23e'', lightColor = ''#f6c23e33''\<rparr>,
         \<lparr>name = Offer, value_sd = 1, color = ''#36b9cc'', lightColor = ''#36b9cc33''\<rparr>,
         \<lparr>name = Accepted, value_sd = 1, color = ''#1cc88a'', lightColor = ''#1cc88a33''\<rparr>,
         \<lparr>name = Rejected, value_sd = 0, color = ''#e74a3b'', lightColor = ''#e74a3b33''\<rparr>],
      monthlyData =
        [\<lparr>name_md = ''Apr 2024'', Applications = 3\<rparr>,
         \<lparr>name_md = ''Mar 2024'', Applications = 3\<rparr>],
      totalJobs = 7, successRate = 14, successJobs = 1, applicationToInterviewRate = 67,
      interviewToOfferRate = 50, offerToAcceptanceRate = 100, interviewCount = 2,
      offerCount = 1, appliedCount = 3\<rparr>"

text \<open>One application and two interviews, all on one day.\<close>

definition funnelJobs :: "Job list" where
  "funnelJobs = map (exampleJob ''2024-03-15'') [Applied, Interview, Interview]"



text \<open>A store: two record objects, another object, and the array of the two records.\<close>

definition exampleStore :: store where
  "exampleStore =
     [JobObj (exampleJob ''2024-03-15'' Applied), JobObj (exampleJob [] Interview),
      MonthTally [(''Jan 2020'', 4)], JobArray [0, 1]]"

text \<open>A session of the form: the dialog is opened, filled in, and submitted.\<close>

definition exampleSession :: "(string \<times> FormEvent) list" where
  "exampleSession =
     [(''2024-05-01'', ClickOpen), (''2024-05-01'', ChangeCompany '' Acme ''),
      (''2024-05-01'', ChangeRole ''Engineer''), (''2024-05-01'', SelectStatus 3),
      (''2024-05-01'', SelectStatus 4), (''2024-05-01'', Submit True)]"

definition exampleSent :: NewJob where
  "exampleSent = \<lparr>company_new = ''Acme'', role_new = ''Engineer'',
                   dateApplied_new = ''2024-05-01'', status_new = Rejected\<rparr>"

section \<open>Rounding to a double: the error of one operation\<close>

lemma pow2_bitlen:
  assumes "0 < (p::int)"
  shows "2 powi (bitlen p - 1) \<le> (of_int p :: rat)" and "(of_int p :: rat) < 2 powi bitlen p"
proof -
  from bitlen_bounds [OF assms]
  have lo: "2 ^ nat (bitlen p - 1) \<le> p" and hi: "p < 2 ^ nat (bitlen p)" by simp_all
  have b1: "1 \<le> bitlen p"
    using assms bitlen_eq_zero_iff [of p] bitlen_nonneg [of p] by linarith
  have "(of_int (2 ^ nat (bitlen p - 1)) :: rat) \<le> of_int p"
    using lo by (simp only: of_int_le_iff)
  then show "2 powi (bitlen p - 1) \<le> (of_int p :: rat)"
    using b1 by (simp add: power_int_nonneg_exp)
  have "(of_int p :: rat) < of_int (2 ^ nat (bitlen p))"
    using hi by (simp only: of_int_less_iff)
  then show "(of_int p :: rat) < 2 powi bitlen p"
    using b1 by (simp add: power_int_nonneg_exp)
qed

lemma binade_bounds:
  assumes "0 < x"
  shows "2 powi binade x \<le> x \<and> x < 2 powi (binade x + 1)"
proof -
  obtain p q where pq: "quotient_of x = (p, q)" by (cases "quotient_of x")
  have q: "0 < q" using pq by (rule quotient_of_denom_pos)
  have x: "x = of_int p / of_int q" using pq by (rule quotient_of_div)
  have p: "0 < p" using assms q x by (simp add: zero_less_divide_iff)
  define e where "e = bitlen p - bitlen q"
  have qr: "0 < (of_int q :: rat)" using q by simp
  have "x < 2 powi bitlen p / 2 powi (bitlen q - 1)"
  proof -
    have "x < 2 powi bitlen p / of_int q"
      unfolding x using pow2_bitlen(2) [OF p] qr by (simp add: divide_strict_right_mono)
    also have "\<dots> \<le> 2 powi bitlen p / 2 powi (bitlen q - 1)"
      using pow2_bitlen(1) [OF q] qr by (intro divide_left_mono) simp_all
    finally show ?thesis .
  qed
  also have "\<dots> = 2 powi (e + 1)"
    by (simp add: e_def power_int_diff [symmetric] algebra_simps)
  finally have hi: "x < 2 powi (e + 1)" .
  have "2 powi (e - 1) = 2 powi (bitlen p - 1) / (2 powi bitlen q :: rat)"
    by (simp add: e_def power_int_diff [symmetric] algebra_simps)
  also have "\<dots> \<le> of_int p / 2 powi bitlen q"
    using pow2_bitlen(1) [OF p] by (intro divide_right_mono) simp_all
  also have "\<dots> \<le> x"
    unfolding x using pow2_bitlen(2) [OF q] p qr by (intro divide_left_mono) simp_all
  finally have lo: "2 powi (e - 1) \<le> x" .
  have b: "binade x = (if 2 powi e \<le> x then e else e - 1)"
    by (simp add: binade_def pq e_def Let_def)
  show ?thesis
  proof (cases "2 powi e \<le> x")
    case True
    then show ?thesis using hi b by simp
  next
    case False
    then show ?thesis using lo b by simp
  qed
qed

lemma roundTiesToEven_error: "\<bar>of_int (roundTiesToEven x) - x\<bar> \<le> 1 / 2"
proof -
  have "of_int \<lfloor>x\<rfloor> \<le> x" "x < of_int \<lfloor>x\<rfloor> + 1" by linarith+
  then show ?thesis
    by (auto simp: roundTiesToEven_def Let_def)
qed

lemma roundTiesToEven_nonneg: "0 \<le> x \<Longrightarrow> 0 \<le> roundTiesToEven x"
  by (auto simp: roundTiesToEven_def Let_def)

lemma toDouble_nonneg: "0 \<le> x \<Longrightarrow> 0 \<le> toDouble x"
  by (auto simp: toDouble_def Let_def sgn_if intro!: roundTiesToEven_nonneg mult_nonneg_nonneg)

lemma toDouble_error:
  assumes "0 < x"
  shows "\<bar>toDouble x - x\<bar> \<le> x / 2 ^ 53"
proof -
  define u :: rat where "u = 2 powi (binade x - 52)"
  have u: "0 < u" by (simp add: u_def)
  have t: "toDouble x = of_int (roundTiesToEven (x / u)) * u"
    using assms by (simp add: toDouble_def u_def Let_def)
  have "\<bar>of_int (roundTiesToEven (x / u)) - x / u\<bar> * u \<le> 1 / 2 * u"
    using roundTiesToEven_error [of "x / u"] u by (intro mult_right_mono) simp_all
  moreover have "\<bar>of_int (roundTiesToEven (x / u)) - x / u\<bar> * u = \<bar>toDouble x - x\<bar>"
    using u by (simp add: t abs_mult_pos left_diff_distrib)
  moreover have "1 / 2 * u = 2 powi binade x / 2 ^ 53"
    by (simp add: u_def power_int_diff)
  moreover have "2 powi binade x / 2 ^ 53 \<le> x / 2 ^ 53"
    using binade_bounds [OF assms] by (intro divide_right_mono) simp_all
  ultimately show ?thesis by linarith
qed

section \<open>The rounded percentage against the exact one\<close>

lemma percent_value:
  fixes a b :: nat
  assumes b: "0 < b"
  defines "v \<equiv> js_mul (js_div (of_nat a) (of_nat b)) 100"
  shows "0 \<le> v" and "\<bar>v - 100 * of_nat a / of_nat b\<bar> \<le> 300 * (of_nat a / of_nat b) / 2 ^ 53"
proof -
  define x :: rat where "x = of_nat a / of_nat b"
  define y where "y = toDouble x"
  have v: "v = toDouble (y * 100)"
    by (simp add: v_def js_mul_def js_div_def y_def x_def)
  have x0: "0 \<le> x" by (simp add: x_def)
  have y0: "0 \<le> y" unfolding y_def using x0 by (rule toDouble_nonneg)
  show "0 \<le> v" unfolding v using y0 by (intro toDouble_nonneg) simp
  show "\<bar>v - 100 * of_nat a / of_nat b\<bar> \<le> 300 * (of_nat a / of_nat b) / 2 ^ 53"
  proof (cases "a = 0")
    case True
    then show ?thesis by (simp add: v y_def x_def toDouble_def)
  next
    case False
    then have xpos: "0 < x" using b by (simp add: x_def)
    have ey: "\<bar>y - x\<bar> \<le> x / 2 ^ 53"
      unfolding y_def using xpos by (rule toDouble_error)
    have "x / 2 ^ 53 < x" using xpos by (simp add: field_simps)
    with ey have ypos: "0 < y" and y2: "y \<le> 2 * x" by linarith+
    have "\<bar>v - y * 100\<bar> \<le> y * 100 / 2 ^ 53"
      unfolding v using ypos by (intro toDouble_error) simp
    also have "\<dots> \<le> (2 * x) * 100 / 2 ^ 53"
      using y2 by (intro divide_right_mono mult_right_mono) simp_all
    finally have ev: "\<bar>v - y * 100\<bar> \<le> 200 * x / 2 ^ 53" by simp
    have "\<bar>v - 100 * x\<bar> = \<bar>(v - y * 100) + 100 * (y - x)\<bar>"
      by (simp add: algebra_simps)
    also have "\<dots> \<le> \<bar>v - y * 100\<bar> + \<bar>100 * (y - x)\<bar>"
      by (rule abs_triangle_ineq)
    finally have tri: "\<bar>v - 100 * x\<bar> \<le> \<bar>v - y * 100\<bar> + \<bar>100 * (y - x)\<bar>" .
    have m: "\<bar>100 * (y - x)\<bar> = 100 * \<bar>y - x\<bar>"
      by (simp only: abs_mult abs_numeral)
    have "\<bar>v - 100 * x\<bar> \<le> 200 * x / 2 ^ 53 + 100 * (x / 2 ^ 53)"
      using tri ev ey unfolding m by linarith
    then have "\<bar>v - 100 * x\<bar> \<le> 300 * x / 2 ^ 53" by simp
    then show ?thesis by (simp add: x_def)
  qed
qed

lemma percentRounded_nonneg: "0 \<le> percentRounded a b"
proof -
  have "0 \<le> js_mul (js_div (of_nat a) (of_nat b)) 100"
    unfolding js_mul_def js_div_def
    by (intro toDouble_nonneg mult_nonneg_nonneg) simp_all
  then show ?thesis by (simp add: percentRounded_def Math_round_def)
qed

lemma percentRounded_le_100:
  assumes "a \<le> b" "0 < b"
  shows "percentRounded a b \<le> 100"
proof -
  define v where "v = js_mul (js_div (of_nat a) (of_nat b)) 100"
  define x :: rat where "x = of_nat a / of_nat b"
  have x1: "x \<le> 1" "0 \<le> x" using assms by (simp_all add: x_def)
  have "\<bar>v - 100 * x\<bar> \<le> 300 * x / 2 ^ 53"
    using percent_value(2) [OF assms(2), of a] by (simp add: v_def x_def)
  moreover have "300 * x / 2 ^ 53 \<le> 300 * 1 / 2 ^ 53"
    using x1 by (intro divide_right_mono mult_left_mono) simp_all
  moreover have "300 * 1 / 2 ^ 53 < (1 / 2 :: rat)" by simp
  ultimately have "v + 1 / 2 < 101" using x1 by linarith
  then have "\<lfloor>v + 1 / 2\<rfloor> < 101" by (simp add: floor_less_iff)
  then show ?thesis by (simp add: percentRounded_def Math_round_def v_def)
qed





section \<open>The two tallies\<close>

lemma firstOccurrences_snoc:
  "firstOccurrences (xs @ [x]) =
     (if x \<in> set xs then firstOccurrences xs else firstOccurrences xs @ [x])"
  by (simp add: firstOccurrences_def)

lemma set_firstOccurrences: "set (firstOccurrences xs) = set xs"
  by (simp add: firstOccurrences_def)

lemma distinct_firstOccurrences: "distinct (firstOccurrences xs)"
  by (simp add: firstOccurrences_def)

lemma increment_map:
  "distinct ks \<Longrightarrow>
   increment (map (\<lambda>k. (k, c k)) ks) l =
     (if l \<in> set ks then map (\<lambda>k. (k, if k = l then c k + 1 else c k)) ks
      else map (\<lambda>k. (k, c k)) ks @ [(l, 1)])"
  by (induction ks) auto

lemma tally_closed:
  "foldl increment [] xs = map (\<lambda>k. (k, count_list xs k)) (firstOccurrences xs)"
proof (induction xs rule: rev_induct)
  case Nil
  show ?case by (simp add: firstOccurrences_def)
next
  case (snoc x xs)
  show ?case
  proof (cases "x \<in> set xs")
    case True
    then show ?thesis
      by (simp add: snoc increment_map distinct_firstOccurrences set_firstOccurrences
          firstOccurrences_snoc)
  next
    case False
    then show ?thesis
      by (auto simp: snoc increment_map distinct_firstOccurrences set_firstOccurrences
          firstOccurrences_snoc)
  qed
qed

lemma orZero_tally: "orZero (foldl increment [] xs) k = count_list xs k"
proof -
  have "map_of (map (\<lambda>k. (k, count_list xs k)) (firstOccurrences xs)) k =
        (if k \<in> set xs then Some (count_list xs k) else None)"
    by (simp add: map_of_map_restrict restrict_map_def set_firstOccurrences)
  then show ?thesis
    by (simp add: orZero_def tally_closed count_list_0_iff)
qed

lemma statusCounts_tally: "statusCounts jobs = foldl increment [] (map status jobs)"
  by (simp add: statusCounts_def foldl_map)

lemma count_list_status: "count_list (map status jobs) st = countStatus jobs st"
  by (induction jobs) (simp_all add: countStatus_def)

lemma orZero_statusCounts: "orZero (statusCounts jobs) st = countStatus jobs st"
  by (simp add: statusCounts_tally orZero_tally count_list_status)

lemma findValue_statusData:
  "findValue (map (statusEntry dark counts) STATUS_ORDER) st = orZero counts st"
  by (cases st) (simp_all add: findValue_def STATUS_ORDER_def statusEntry_def)

lemma countStatus_total:
  "countStatus jobs Applied + countStatus jobs Interview + countStatus jobs Offer
     + countStatus jobs Accepted + countStatus jobs Rejected = length jobs"
proof (induction jobs)
  case Nil
  show ?case by (simp add: countStatus_def)
next
  case (Cons j jobs)
  then show ?case by (cases "status j") (simp_all add: countStatus_def)
qed

lemma monthlyStep_error: "foldl (monthlyStep newDate) (Inl e) jobs = Inl e"
  by (induction jobs) simp_all

lemma monthly_labels:
  "map (monthLabel newDate) (dated jobs) = map Inr labels \<Longrightarrow>
   foldl (monthlyStep newDate) (Inr acc) jobs = Inr (foldl increment acc labels)"
proof (induction jobs arbitrary: acc labels)
  case Nil
  then show ?case by (simp add: dated_def)
next
  case (Cons j jobs)
  show ?case
  proof (cases "dateApplied j = []")
    case True
    with Cons show ?thesis by (simp add: dated_def)
  next
    case False
    with Cons.prems obtain l ls where l: "labels = l # ls" "monthLabel newDate j = Inr l"
      "map (monthLabel newDate) (dated jobs) = map Inr ls"
      by (auto simp: dated_def)
    with False Cons.IH [OF l(3)] show ?thesis by (simp add: monthLabel_def)
  qed
qed

lemma monthly_raises:
  "job \<in> set jobs \<Longrightarrow> dateApplied job \<noteq> [] \<Longrightarrow> monthLabel newDate job = Inl e \<Longrightarrow>
   foldl (monthlyStep newDate) (Inr acc) jobs = Inl e"
proof (induction jobs arbitrary: acc)
  case Nil
  then show ?case by simp
next
  case (Cons j jobs)
  show ?case
  proof (cases "dateApplied j \<noteq> [] \<and> (\<exists>e'. monthLabel newDate j = Inl e')")
    case True
    then obtain e' where "monthLabel newDate j = Inl e'" by blast
    moreover have "e' = e" by (cases e; cases e') simp
    ultimately show ?thesis using True by (simp add: monthLabel_def monthlyStep_error)
  next
    case False
    with Cons.prems have "job \<in> set jobs" by auto
    from Cons.IH [OF this Cons.prems(2,3)] False show ?thesis
      by (cases "monthLabel newDate j") (auto simp: monthLabel_def)
  qed
qed

section \<open>What a call returns\<close>

lemma monthlyCounts_labels:
  "map (monthLabel newDate) (dated jobs) = map Inr labels \<Longrightarrow>
   monthlyCounts newDate jobs =
     Inr (map (\<lambda>k. (k, count_list labels k)) (firstOccurrences labels))"
  by (simp add: monthlyCounts_def monthly_labels tally_closed)

lemma monthlyCounts_raises:
  "job \<in> set jobs \<Longrightarrow> dateApplied job \<noteq> [] \<Longrightarrow> monthLabel newDate job = Inl e \<Longrightarrow>
   monthlyCounts newDate jobs = Inl e"
  by (simp add: monthlyCounts_def monthly_raises)

lemma labels_or_error:
  "(\<exists>labels. zs = map Inr labels) \<or> (\<exists>e. Inl e \<in> set zs)"
proof (induction zs)
  case Nil
  show ?case by simp
next
  case (Cons z zs)
  show ?case
  proof (cases z)
    case (Inl e)
    then show ?thesis by auto
  next
    case (Inr l)
    from Cons show ?thesis
    proof
      assume "\<exists>labels. zs = map Inr labels"
      then obtain ls where "zs = map Inr ls" ..
      then have "z # zs = map Inr (l # ls)" using Inr by simp
      then show ?thesis by (intro disjI1 exI)
    next
      assume "\<exists>e. Inl e \<in> set zs"
      then show ?thesis by auto
    qed
  qed
qed

lemma metricsOf_Nil:
  "metricsOf dark newDate [] =
     Inr \<lparr>statusData = [], monthlyData = [], totalJobs = 0, successRate = 0,
          successJobs = 0, applicationToInterviewRate = 0, interviewToOfferRate = 0,
          offerToAcceptanceRate = 0, interviewCount = 0, offerCount = 0,
          appliedCount = 0\<rparr>"
  by (simp add: metricsOf_def Dashboard_useMemo_def)

lemma metricsOf_error:
  "jobs \<noteq> [] \<Longrightarrow> monthlyCounts newDate jobs = Inl e \<Longrightarrow> metricsOf dark newDate jobs = Inl e"
  by (simp add: metricsOf_def Dashboard_useMemo_def Let_def)

lemma metricsOf_value:
  assumes "jobs \<noteq> []" and "monthlyCounts newDate jobs = Inr months"
  shows "metricsOf dark newDate jobs =
     Inr \<lparr>statusData = map (statusEntry dark (statusCounts jobs)) STATUS_ORDER,
          monthlyData = map (\<lambda>(n, a). \<lparr>name_md = n, Applications = a\<rparr>) months,
          totalJobs = length jobs,
          successRate = percentRounded (countStatus jobs Accepted) (length jobs),
          successJobs = countStatus jobs Accepted,
          applicationToInterviewRate =
            (if countStatus jobs Applied > 0
             then percentRounded (countStatus jobs Interview) (countStatus jobs Applied) else 0),
          interviewToOfferRate =
            (if countStatus jobs Interview > 0
             then percentRounded (countStatus jobs Offer) (countStatus jobs Interview) else 0),
          offerToAcceptanceRate =
            (if countStatus jobs Offer > 0
             then percentRounded (countStatus jobs Accepted) (countStatus jobs Offer) else 0),
          interviewCount = countStatus jobs Interview,
          offerCount = countStatus jobs Offer,
          appliedCount = countStatus jobs Applied\<rparr>"
  using assms
  by (simp add: metricsOf_def Dashboard_useMemo_def Let_def findValue_statusData
      orZero_statusCounts)

lemma statusData_values:
  "map value_sd (map (statusEntry dark (statusCounts jobs)) STATUS_ORDER) =
     map (countStatus jobs) STATUS_ORDER"
  by (simp add: statusEntry_def orZero_statusCounts Let_def)

lemma statusData_names:
  "map name (map (statusEntry dark counts) STATUS_ORDER) = STATUS_ORDER"
  by (simp add: statusEntry_def comp_def Let_def)

lemma statusData_closed:
  "map (statusEntry dark (statusCounts jobs)) STATUS_ORDER =
     map (\<lambda>st. \<lparr>name = st, value_sd = countStatus jobs st, color = getStatusColor st dark,
                 lightColor = getStatusColor st dark @ ''33''\<rparr>) STATUS_ORDER"
  by (simp add: statusEntry_def orZero_statusCounts Let_def)

lemma metricsOf_cases:
  assumes "metricsOf dark newDate jobs = Inr m"
  obtains
    (empty) "jobs = []"
      "m = \<lparr>statusData = [], monthlyData = [], totalJobs = 0, successRate = 0,
            successJobs = 0, applicationToInterviewRate = 0, interviewToOfferRate = 0,
            offerToAcceptanceRate = 0, interviewCount = 0, offerCount = 0,
            appliedCount = 0\<rparr>"
  | (returned) months where "jobs \<noteq> []" "monthlyCounts newDate jobs = Inr months"
      "m = \<lparr>statusData = map (statusEntry dark (statusCounts jobs)) STATUS_ORDER,
            monthlyData = map (\<lambda>(n, a). \<lparr>name_md = n, Applications = a\<rparr>) months,
            totalJobs = length jobs,
            successRate = percentRounded (countStatus jobs Accepted) (length jobs),
            successJobs = countStatus jobs Accepted,
            applicationToInterviewRate =
              (if countStatus jobs Applied > 0
               then percentRounded (countStatus jobs Interview) (countStatus jobs Applied) else 0),
            interviewToOfferRate =
              (if countStatus jobs Interview > 0
               then percentRounded (countStatus jobs Offer) (countStatus jobs Interview) else 0),
            offerToAcceptanceRate =
              (if countStatus jobs Offer > 0
               then percentRounded (countStatus jobs Accepted) (countStatus jobs Offer) else 0),
            interviewCount = countStatus jobs Interview,
            offerCount = countStatus jobs Offer,
            appliedCount = countStatus jobs Applied\<rparr>"
proof (cases "jobs = []")
  case True
  with assms empty show ?thesis by (simp add: metricsOf_Nil)
next
  case False
  show ?thesis
  proof (cases "monthlyCounts newDate jobs")
    case (Inl e)
    with False assms show ?thesis by (simp add: metricsOf_error)
  next
    case (Inr months)
    from metricsOf_value [OF False Inr, of dark] assms returned [OF False Inr] show ?thesis by simp
  qed
qed

lemma countStatus_le: "countStatus jobs st \<le> length jobs"
  by (simp add: countStatus_def)

lemma metricsOf_returns:
  assumes "\<forall>job\<in>set jobs. dateApplied job = [] \<or> newDate (dateApplied job) \<noteq> InvalidDate"
  shows "\<exists>months. monthlyCounts newDate jobs = Inr months"
proof -
  from labels_or_error [of "map (monthLabel newDate) (dated jobs)"] show ?thesis
  proof
    assume "\<exists>labels. map (monthLabel newDate) (dated jobs) = map Inr labels"
    then show ?thesis by (auto dest: monthlyCounts_labels)
  next
    assume "\<exists>e. Inl e \<in> set (map (monthLabel newDate) (dated jobs))"
    then obtain e job where j: "job \<in> set jobs" "dateApplied job \<noteq> []"
      "monthLabel newDate job = Inl e"
      by (auto simp: dated_def dest: sym)
    with assms have "newDate (dateApplied job) \<noteq> InvalidDate" by auto
    with j(3) show ?thesis
      by (cases "newDate (dateApplied job)") (simp_all add: monthLabel_def)
  qed
qed

lemma monthlyCounts_dated: "monthlyCounts newDate (dated jobs) = monthlyCounts newDate jobs"
proof -
  have "foldl (monthlyStep newDate) r (dated jobs) = foldl (monthlyStep newDate) r jobs" for r
  proof (induction jobs arbitrary: r)
    case Nil
    show ?case by (simp add: dated_def)
  next
    case (Cons j jobs)
    show ?case
    proof (cases r)
      case (Inl e)
      then show ?thesis by (simp add: monthlyStep_error)
    next
      case (Inr acc)
      with Cons show ?thesis by (simp add: dated_def)
    qed
  qed
  then show ?thesis by (simp add: monthlyCounts_def)
qed

lemma monthlyCounts_Nil: "monthlyCounts newDate [] = Inr []"
  by (simp add: monthlyCounts_def)

section \<open>The examples, evaluated\<close>

lemma isoDate_examples:
  "isoDate ''2024-04-10'' = LocalDate 2024 Apr"
  "isoDate ''2024-03-15'' = LocalDate 2024 Mar"
  "isoDate ''2024-04-20'' = LocalDate 2024 Apr"
  "isoDate ''2024-03-05'' = LocalDate 2024 Mar"
  "isoDate ''2024-04-11'' = LocalDate 2024 Apr"
  "isoDate ''2024-03-25'' = LocalDate 2024 Mar"
  "isoDate ''not a date'' = InvalidDate"
  by (simp_all add: isoDate_def hostDate_def localMonthOf_def isoCalendar_def digitVal_def
      monthOf_def daysInMonth_def)

lemma format_examples:
  "format_MMM_yyyy (LocalDate 2024 Apr) = Inr ''Apr 2024''"
  "format_MMM_yyyy (LocalDate 2024 Mar) = Inr ''Mar 2024''"
  by (simp_all add: addLeadingZeros_def digitChar_def decimal.simps)

lemma example_monthlyCounts:
  "monthlyCounts isoDate exampleJobs = Inr [(''Apr 2024'', 3), (''Mar 2024'', 3)]"
  by (simp add: monthlyCounts_def exampleJobs_def exampleJob_def isoDate_examples format_examples
      del: format_MMM_yyyy.simps)

lemma example_counts:
  "countStatus exampleJobs Applied = 3" "countStatus exampleJobs Interview = 2"
  "countStatus exampleJobs Offer = 1" "countStatus exampleJobs Accepted = Suc 0"
  "countStatus exampleJobs Rejected = 0" "length exampleJobs = 7"
  by (simp_all add: countStatus_def exampleJobs_def exampleJob_def)

lemma example_percent:
  "percentRounded (Suc 0) 7 = 14" "percentRounded 2 3 = 67"
  "percentRounded (Suc 0) 2 = 50" "percentRounded (Suc 0) (Suc 0) = 100"
  by code_simp+

lemma example_run: "metricsOf False isoDate exampleJobs = Inr exampleMetrics"
proof -
  have ne: "exampleJobs \<noteq> []" by (simp add: exampleJobs_def)
  show ?thesis
    unfolding metricsOf_value [OF ne example_monthlyCounts]
    by (simp add: example_counts example_percent exampleMetrics_def STATUS_ORDER_def
        statusEntry_def orZero_statusCounts)
qed

section \<open>The status counts\<close>

text \<open>
  The statement C3 as written includes the empty list. There the callback returns early
  with \<^verbatim>\<open>statusData: []\<close>: no key at all, not five keys with the count 0.
\<close>

theorem status_keys_empty_input_counterexample:
  "map_sum id statusData (metricsOf False isoDate []) = Inr []"
  by (simp add: metricsOf_Nil)

text \<open>
  C3, amended: for every non-empty list of records on which the aggregation returns,
  \<^verbatim>\<open>statusData\<close> has exactly the five statuses as keys, in the display order Applied,
  Interview, Offer, Accepted, Rejected, and the value of each is the number of records
  with that status (a natural number, 0 when no record has the status).
\<close>

theorem status_keys_nonempty:
  assumes "jobs \<noteq> []" and "metricsOf dark newDate jobs = Inr m"
  shows "map name (statusData m) = [Applied, Interview, Offer, Accepted, Rejected]
       \<and> map value_sd (statusData m) =
           map (countStatus jobs) [Applied, Interview, Offer, Accepted, Rejected]"
  using assms(2)
proof (cases rule: metricsOf_cases)
  case empty
  with assms(1) show ?thesis by simp
next
  case (returned months)
  show ?thesis
    using statusData_values [of dark jobs] statusData_names [of dark "statusCounts jobs"]
    by (simp add: returned(3) STATUS_ORDER_def del: map_map)
qed

theorem status_keys_nonempty_witness:
  "exampleJobs \<noteq> [] \<and> metricsOf False isoDate exampleJobs = Inr exampleMetrics
   \<and> map name (statusData exampleMetrics) = [Applied, Interview, Offer, Accepted, Rejected]
   \<and> map value_sd (statusData exampleMetrics) = [3, 2, 1, 1, 0]"
proof -
  have ne: "exampleJobs \<noteq> []" by (simp add: exampleJobs_def)
  from status_keys_nonempty [OF ne example_run] ne example_run show ?thesis
    by (simp add: example_counts)
qed

text \<open>
  C4: whenever the aggregation returns, the values of \<^verbatim>\<open>statusData\<close> add up to
  \<^verbatim>\<open>totalJobs\<close>, which is the length of the list of records, and so do the counts read
  for the five statuses. (On the empty list all are 0: there are no entries to add.)
\<close>

theorem status_values_sum_to_total:
  assumes "metricsOf dark newDate jobs = Inr m"
  shows "sum_list (map value_sd (statusData m)) = totalJobs m
       \<and> findValue (statusData m) Applied + findValue (statusData m) Interview
           + findValue (statusData m) Offer + findValue (statusData m) Accepted
           + findValue (statusData m) Rejected = totalJobs m
       \<and> totalJobs m = length jobs"
  using assms
proof (cases rule: metricsOf_cases)
  case empty
  then show ?thesis by (simp add: findValue_def)
next
  case (returned months)
  have "sum_list (map value_sd (statusData m)) = sum_list (map (countStatus jobs) STATUS_ORDER)"
    by (simp add: returned(3) statusData_values del: map_map)
  also have "\<dots> = length jobs"
    using countStatus_total [of jobs] by (simp add: STATUS_ORDER_def)
  finally show ?thesis
    using countStatus_total [of jobs]
    by (simp add: returned(3) findValue_statusData orZero_statusCounts)
qed

theorem status_values_sum_to_total_witness:
  "metricsOf False isoDate exampleJobs = Inr exampleMetrics
   \<and> sum_list (map value_sd (statusData exampleMetrics)) = totalJobs exampleMetrics
   \<and> findValue (statusData exampleMetrics) Applied + findValue (statusData exampleMetrics) Interview
       + findValue (statusData exampleMetrics) Offer + findValue (statusData exampleMetrics) Accepted
       + findValue (statusData exampleMetrics) Rejected = totalJobs exampleMetrics
   \<and> totalJobs exampleMetrics = length exampleJobs"
  using status_values_sum_to_total [OF example_run] example_run by simp

section \<open>The empty list\<close>

text \<open>
  C6: on the empty list the aggregation returns, with \<^verbatim>\<open>totalJobs\<close> 0, the four rates
  0, no entry of \<^verbatim>\<open>statusData\<close> with a value other than 0 (there is no entry), the
  count read for any status \<open>st\<close> 0, and \<^verbatim>\<open>monthlyData\<close> empty.
\<close>

theorem empty_input_all_zero:
  "\<exists>m. metricsOf dark newDate [] = Inr m
     \<and> totalJobs m = 0
     \<and> successRate m = 0 \<and> applicationToInterviewRate m = 0
     \<and> interviewToOfferRate m = 0 \<and> offerToAcceptanceRate m = 0
     \<and> filter (\<lambda>e. value_sd e \<noteq> 0) (statusData m) = []
     \<and> findValue (statusData m) st = 0
     \<and> monthlyData m = []"
  by (simp add: metricsOf_Nil findValue_def)

section \<open>The four rates\<close>

lemma guarded_rate_nonneg: "0 \<le> (if 0 < b then percentRounded a b else 0)"
  by (simp add: percentRounded_nonneg)

lemma guarded_rate_le_100: "a \<le> b \<Longrightarrow> (if 0 < b then percentRounded a b else 0) \<le> 100"
  by (simp add: percentRounded_le_100)

lemma same_day_monthlyCounts:
  "\<exists>months. monthlyCounts isoDate (map (exampleJob ''2024-03-15'') sts) = Inr months"
  by (rule metricsOf_returns) (simp add: exampleJob_def isoDate_examples)



text \<open>
  The statement C1 as written bounds all four rates by 100. Three of them divide the
  count of one status by the count of another, and nothing bounds the first by the
  second: one record Applied and two records Interview give
  \<^verbatim>\<open>applicationToInterviewRate\<close> 200.
\<close>

theorem rate_above_100_counterexample:
  "map_sum id applicationToInterviewRate (metricsOf False isoDate funnelJobs) = Inr 200"
proof -
  obtain months where mc: "monthlyCounts isoDate funnelJobs = Inr months"
    unfolding funnelJobs_def using same_day_monthlyCounts by blast
  have ne: "funnelJobs \<noteq> []" by (simp add: funnelJobs_def)
  have c: "countStatus funnelJobs Applied = 1" "countStatus funnelJobs Interview = 2"
    by (simp_all add: countStatus_def funnelJobs_def exampleJob_def)
  have "percentRounded 2 1 = 200" by code_simp
  then show ?thesis
    unfolding metricsOf_value [OF ne mc] c by simp
qed

text \<open>
  C1, amended: whenever the aggregation returns, each of the four rates is an integer
  that is not negative; \<^verbatim>\<open>successRate\<close> is at most 100; and each of the other three is
  at most 100 when its numerator count is not above its denominator count.
\<close>

theorem rates_range:
  assumes "metricsOf dark newDate jobs = Inr m"
  shows "0 \<le> successRate m \<and> successRate m \<le> 100
       \<and> 0 \<le> applicationToInterviewRate m
       \<and> 0 \<le> interviewToOfferRate m
       \<and> 0 \<le> offerToAcceptanceRate m
       \<and> (interviewCount m \<le> appliedCount m \<longrightarrow> applicationToInterviewRate m \<le> 100)
       \<and> (offerCount m \<le> interviewCount m \<longrightarrow> interviewToOfferRate m \<le> 100)
       \<and> (successJobs m \<le> offerCount m \<longrightarrow> offerToAcceptanceRate m \<le> 100)"
  using assms
proof (cases rule: metricsOf_cases)
  case empty
  then show ?thesis by simp
next
  case (returned months)
  have "successRate m \<le> 100"
    using returned(1) by (simp add: returned(3) percentRounded_le_100 countStatus_le)
  then show ?thesis
    using guarded_rate_le_100 guarded_rate_nonneg
    by (simp add: returned(3) percentRounded_nonneg percentRounded_le_100)
qed

theorem rates_range_witness:
  "metricsOf False isoDate exampleJobs = Inr exampleMetrics
   \<and> 0 \<le> successRate exampleMetrics \<and> successRate exampleMetrics \<le> 100
   \<and> 0 \<le> applicationToInterviewRate exampleMetrics
   \<and> 0 \<le> interviewToOfferRate exampleMetrics
   \<and> 0 \<le> offerToAcceptanceRate exampleMetrics
   \<and> interviewCount exampleMetrics \<le> appliedCount exampleMetrics
   \<and> applicationToInterviewRate exampleMetrics \<le> 100
   \<and> offerCount exampleMetrics \<le> interviewCount exampleMetrics
   \<and> interviewToOfferRate exampleMetrics \<le> 100
   \<and> successJobs exampleMetrics \<le> offerCount exampleMetrics
   \<and> offerToAcceptanceRate exampleMetrics \<le> 100"
proof -
  have "interviewCount exampleMetrics \<le> appliedCount exampleMetrics"
    "offerCount exampleMetrics \<le> interviewCount exampleMetrics"
    "successJobs exampleMetrics \<le> offerCount exampleMetrics"
    by (simp_all add: exampleMetrics_def)
  with rates_range [OF example_run] example_run show ?thesis by simp
qed




section \<open>Totality\<close>

text \<open>
  The statement C2 as written has the aggregation return on every list, records with an
  unparseable \<^verbatim>\<open>dateApplied\<close> included. The guard \<^verbatim>\<open>if (job.dateApplied)\<close> skips the
  empty string only; a string that is not empty goes to \<^verbatim>\<open>format(new Date(...))\<close>, and
  \<^verbatim>\<open>format\<close> throws on the Invalid Date.
\<close>

theorem unparseable_date_raises_counterexample:
  "metricsOf False isoDate [exampleJob ''not a date'' Applied] = Inl RangeError"
proof -
  have "monthlyCounts isoDate [exampleJob ''not a date'' Applied] = Inl RangeError"
    by (simp add: monthlyCounts_def exampleJob_def isoDate_examples)
  then show ?thesis by (simp add: metricsOf_error)
qed

text \<open>
  C2, amended: on every list of records in which each \<^verbatim>\<open>dateApplied\<close> is empty or is
  parsed by the host to a valid date (the empty list and records without notes
  included), the aggregation returns a value and does not throw; the records with an
  empty \<^verbatim>\<open>dateApplied\<close> are left out of \<^verbatim>\<open>monthlyData\<close> only, which is that of the dated
  records alone, while \<^verbatim>\<open>totalJobs\<close> and the values of \<^verbatim>\<open>statusData\<close> count every
  record.
\<close>

theorem returns_on_parseable_dates:
  assumes "\<forall>job\<in>set jobs. dateApplied job = [] \<or> newDate (dateApplied job) \<noteq> InvalidDate"
  shows "\<exists>m. metricsOf dark newDate jobs = Inr m
           \<and> totalJobs m = length jobs
           \<and> sum_list (map value_sd (statusData m)) = length jobs
           \<and> map_sum id monthlyData (metricsOf dark newDate (dated jobs)) = Inr (monthlyData m)"
proof -
  obtain months where mc: "monthlyCounts newDate jobs = Inr months"
    using metricsOf_returns [OF assms] by blast
  show ?thesis
  proof (cases "jobs = []")
    case True
    then show ?thesis by (simp add: metricsOf_Nil dated_def)
  next
    case False
    have md: "map_sum id monthlyData (metricsOf dark newDate (dated jobs)) =
          Inr (map (\<lambda>(n, a). \<lparr>name_md = n, Applications = a\<rparr>) months)"
    proof (cases "dated jobs = []")
      case True
      with mc monthlyCounts_dated [of newDate jobs] show ?thesis
        by (simp add: metricsOf_Nil monthlyCounts_Nil)
    next
      case ne: False
      from mc have "monthlyCounts newDate (dated jobs) = Inr months"
        by (simp add: monthlyCounts_dated)
      from metricsOf_value [OF ne this] show ?thesis by simp
    qed
    have "sum_list (map (countStatus jobs) STATUS_ORDER) = length jobs"
      using countStatus_total [of jobs] by (simp add: STATUS_ORDER_def)
    then show ?thesis
      unfolding metricsOf_value [OF False mc] md
      by (simp add: statusData_values del: map_map)
  qed
qed

theorem returns_on_parseable_dates_witness:
  "list_all (\<lambda>job. dateApplied job = [] \<or> isoDate (dateApplied job) \<noteq> InvalidDate) exampleJobs
   \<and> exampleJob [] Offer \<in> set exampleJobs
   \<and> (\<exists>m. metricsOf False isoDate exampleJobs = Inr m
           \<and> totalJobs m = length exampleJobs
           \<and> sum_list (map value_sd (statusData m)) = length exampleJobs
           \<and> map_sum id monthlyData (metricsOf False isoDate (dated exampleJobs))
               = Inr (monthlyData m))"
proof -
  have h: "\<forall>job\<in>set exampleJobs. dateApplied job = [] \<or> isoDate (dateApplied job) \<noteq> InvalidDate"
    by (simp add: exampleJobs_def exampleJob_def isoDate_examples)
  have "exampleJob [] Offer \<in> set exampleJobs" by (simp add: exampleJobs_def)
  with returns_on_parseable_dates [OF h, of False] h show ?thesis
    unfolding list_all_iff by blast
qed

section \<open>The months\<close>

lemma length_monthAbbrev: "length (monthAbbrev mo) = 3"
  by (cases mo) simp_all

lemma length_addLeadingZeros: "targetLength \<le> length (addLeadingZeros n targetLength)"
  by (simp add: addLeadingZeros_def)

lemma monthLabel_shape:
  assumes "monthLabel newDate job = Inr l"
  shows "\<exists>mo y. l = monthAbbrev mo @ '' '' @ addLeadingZeros y 4 \<and> 8 \<le> length l"
proof (cases "newDate (dateApplied job)")
  case InvalidDate
  with assms show ?thesis by (simp add: monthLabel_def)
next
  case (LocalDate y mo)
  define n where "n = nat (if y > 0 then y else 1 - y)"
  from LocalDate assms have l: "l = monthAbbrev mo @ '' '' @ addLeadingZeros n 4"
    by (simp add: monthLabel_def Let_def n_def)
  have "8 \<le> length l"
    using length_addLeadingZeros [of 4 n] by (simp add: l length_monthAbbrev)
  with l show ?thesis by blast
qed

lemma monthlyData_closed:
  assumes "metricsOf dark newDate jobs = Inr m"
  shows "\<exists>labels. map (monthLabel newDate) (dated jobs) = map Inr labels
           \<and> monthlyData m =
               map (\<lambda>k. \<lparr>name_md = k, Applications = count_list labels k\<rparr>)
                 (firstOccurrences labels)"
  using assms
proof (cases rule: metricsOf_cases)
  case empty
  then have "map (monthLabel newDate) (dated jobs) = map Inr []" by (simp add: dated_def)
  moreover have "monthlyData m =
      map (\<lambda>k. \<lparr>name_md = k, Applications = count_list [] k\<rparr>) (firstOccurrences [])"
    using empty by (simp add: firstOccurrences_def)
  ultimately show ?thesis by blast
next
  case (returned months)
  from labels_or_error [of "map (monthLabel newDate) (dated jobs)"] show ?thesis
  proof
    assume "\<exists>labels. map (monthLabel newDate) (dated jobs) = map Inr labels"
    then obtain labels where l: "map (monthLabel newDate) (dated jobs) = map Inr labels" ..
    from monthlyCounts_labels [OF l] returned(2)
    have "months = map (\<lambda>k. (k, count_list labels k)) (firstOccurrences labels)" by simp
    then have "monthlyData m =
      map (\<lambda>k. \<lparr>name_md = k, Applications = count_list labels k\<rparr>) (firstOccurrences labels)"
      by (simp add: returned(3) comp_def)
    with l show ?thesis by blast
  next
    assume "\<exists>e. Inl e \<in> set (map (monthLabel newDate) (dated jobs))"
    then obtain e job where "job \<in> set jobs" "dateApplied job \<noteq> []"
      "monthLabel newDate job = Inl e"
      by (auto simp: dated_def dest: sym)
    from monthlyCounts_raises [OF this] returned(2) show ?thesis by simp
  qed
qed

text \<open>
  For any host: the keys of \<^verbatim>\<open>monthlyData\<close> are the labels of the dated records, each
  once, in the order in which each label occurs first, each with the number of dated
  records that have it.
\<close>

lemma monthlyData_by_label:
  assumes "metricsOf dark newDate jobs = Inr m"
  shows "\<exists>labels. map (monthLabel newDate) (dated jobs) = map Inr labels
           \<and> map name_md (monthlyData m) = firstOccurrences labels
           \<and> map Applications (monthlyData m) = map (count_list labels) (firstOccurrences labels)
           \<and> set (map name_md (monthlyData m)) = set labels
           \<and> distinct (map name_md (monthlyData m))
           \<and> (\<forall>l\<in>set labels.
                \<exists>mo y. l = monthAbbrev mo @ '' '' @ addLeadingZeros y 4 \<and> 8 \<le> length l)"
proof -
  from monthlyData_closed [OF assms] obtain labels where
    l: "map (monthLabel newDate) (dated jobs) = map Inr labels" and
    md: "monthlyData m =
           map (\<lambda>k. \<lparr>name_md = k, Applications = count_list labels k\<rparr>)
             (firstOccurrences labels)"
    by blast
  have shape: "\<exists>mo y. l' = monthAbbrev mo @ '' '' @ addLeadingZeros y 4 \<and> 8 \<le> length l'"
    if "l' \<in> set labels" for l'
  proof -
    from that have "Inr l' \<in> set (map (monthLabel newDate) (dated jobs))" by (simp add: l)
    then obtain job where "monthLabel newDate job = Inr l'" by (auto dest: sym)
    then show ?thesis by (rule monthLabel_shape)
  qed
  have "map name_md (monthlyData m) = firstOccurrences labels"
    by (simp add: md comp_def)
  moreover have "map Applications (monthlyData m) =
      map (count_list labels) (firstOccurrences labels)"
    by (simp add: md comp_def)
  ultimately show ?thesis
    using l shape by (auto simp: set_firstOccurrences distinct_firstOccurrences)
qed

subsection \<open>Labels and months\<close>














lemma localMonthOf_calendar:
  "isoCalendar s = Some (y, mo, d) \<Longrightarrow> d \<noteq> 1 \<or> \<not> behind \<Longrightarrow>
   localMonthOf behind s = Some (int y, mo)"
  by (auto simp: localMonthOf_def)




section \<open>The order of the records\<close>

lemma countStatus_mset: "mset jobs = mset jobs' \<Longrightarrow> countStatus jobs st = countStatus jobs' st"
proof -
  assume "mset jobs = mset jobs'"
  then have "mset (filter (\<lambda>job. status job = st) jobs) = mset (filter (\<lambda>job. status job = st) jobs')"
    by simp
  then show ?thesis unfolding countStatus_def by (rule mset_eq_length)
qed

lemma exceptMonthOrder_Inr:
  "m\<lparr>monthlyData := []\<rparr> = m'\<lparr>monthlyData := []\<rparr> \<Longrightarrow> mset (monthlyData m) = mset (monthlyData m')
   \<Longrightarrow> exceptMonthOrder (Inr m) (Inr m')"
  by (simp add: exceptMonthOrder_def)

text \<open>
  C8: on a list and on any permutation of it the aggregation has the same outcome, but
  for the order of the entries of \<^verbatim>\<open>monthlyData\<close>: either both calls throw the same
  error, or both return, with the same \<^verbatim>\<open>statusData\<close>, \<^verbatim>\<open>totalJobs\<close>, counts and rates,
  and with the same entries of \<^verbatim>\<open>monthlyData\<close>.
\<close>

theorem permutation_invariance:
  assumes "mset jobs = mset jobs'"
  shows "exceptMonthOrder (metricsOf dark newDate jobs) (metricsOf dark newDate jobs')"
proof (cases "jobs = []")
  case True
  with assms have "jobs' = []" by simp
  with True show ?thesis by (simp add: metricsOf_Nil exceptMonthOrder_def)
next
  case False
  with assms have ne': "jobs' \<noteq> []" by auto
  have len: "length jobs = length jobs'" using assms by (rule mset_eq_length)
  have cnt: "countStatus jobs st = countStatus jobs' st" for st
    using assms by (rule countStatus_mset)
  have sets: "set jobs = set jobs'" using assms by (rule mset_eq_setD)
  have dm: "mset (map (monthLabel newDate) (dated jobs)) = mset (map (monthLabel newDate) (dated jobs'))"
    using assms by (simp add: dated_def)
  from labels_or_error [of "map (monthLabel newDate) (dated jobs)"] show ?thesis
  proof
    assume "\<exists>e. Inl e \<in> set (map (monthLabel newDate) (dated jobs))"
    then obtain e job where j: "job \<in> set jobs" "dateApplied job \<noteq> []"
      "monthLabel newDate job = Inl e"
      by (auto simp: dated_def dest: sym)
    from j(1) sets have j': "job \<in> set jobs'" by simp
    have "monthlyCounts newDate jobs = Inl e" using j by (rule monthlyCounts_raises)
    moreover have "monthlyCounts newDate jobs' = Inl e" using j' j(2,3) by (rule monthlyCounts_raises)
    ultimately show ?thesis
      using False ne' by (simp add: metricsOf_error exceptMonthOrder_def)
  next
    assume "\<exists>labels. map (monthLabel newDate) (dated jobs) = map Inr labels"
    then obtain labels where l: "map (monthLabel newDate) (dated jobs) = map Inr labels" ..
    have "\<not> (\<exists>e. Inl e \<in> set (map (monthLabel newDate) (dated jobs')))"
    proof
      assume "\<exists>e. Inl e \<in> set (map (monthLabel newDate) (dated jobs'))"
      then obtain e where "Inl e \<in># mset (map (monthLabel newDate) (dated jobs'))" by auto
      then have "Inl e \<in> set (map (monthLabel newDate) (dated jobs))"
        unfolding dm [symmetric] by simp
      then show False by (auto simp: l)
    qed
    with labels_or_error [of "map (monthLabel newDate) (dated jobs')"]
    obtain labels' where l': "map (monthLabel newDate) (dated jobs') = map Inr labels'" by blast
    define g :: "error + string \<Rightarrow> string" where "g = case_sum (\<lambda>_. []) id"
    have "mset (map g (map Inr labels)) = mset (map g (map Inr labels'))"
      using dm unfolding l l' by (simp only: mset_map)
    then have ml: "mset labels = mset labels'"
      by (simp add: g_def comp_def)
    then have sl: "set labels = set labels'" by (rule mset_eq_setD)
    have cl: "count_list labels k = count_list labels' k" for k
      using ml by (rule mset_eq_length_filter)
    have "mset (firstOccurrences labels) = mset_set (set labels)"
      by (simp add: mset_set_set [symmetric] distinct_firstOccurrences set_firstOccurrences)
    also have "\<dots> = mset (firstOccurrences labels')"
      by (simp add: sl mset_set_set [symmetric] distinct_firstOccurrences set_firstOccurrences)
    finally have fo: "mset (firstOccurrences labels) = mset (firstOccurrences labels')" .
    note mc = monthlyCounts_labels [OF l] and mc' = monthlyCounts_labels [OF l']
    show ?thesis
      unfolding metricsOf_value [OF False mc] metricsOf_value [OF ne' mc'] statusData_closed
      by (rule exceptMonthOrder_Inr) (simp_all add: len cnt cl fo comp_def)
  qed
qed

theorem permutation_invariance_witness:
  "mset exampleJobs = mset (rev exampleJobs)
   \<and> exceptMonthOrder (metricsOf False isoDate exampleJobs)
        (metricsOf False isoDate (rev exampleJobs))"
  using permutation_invariance [of exampleJobs "rev exampleJobs" False isoDate] by simp

section \<open>Effects of a call\<close>

lemma deref_append: "a < length h \<Longrightarrow> deref (h @ xs) a = deref h a"
  by (simp add: deref_def nth_append)

lemma deref_last: "deref (h @ [ob]) (length h) = Some ob"
  by (simp add: deref_def)

lemma update_last: "(h @ [ob])[length h := ob'] = h @ [ob']"
  by simp

lemma jobAt_Some: "jobAt h a = Some job \<longleftrightarrow> a < length h \<and> deref h a = Some (JobObj job)"
  by (auto simp: jobAt_def deref_def split: obj.splits)

lemma jobAt_append: "jobAt h a = Some job \<Longrightarrow> jobAt (h @ xs) a = Some job"
  by (auto simp: jobAt_Some deref_append)

lemma those_Some: "those xs = Some ys \<longleftrightarrow> xs = map Some ys"
proof (induction xs arbitrary: ys)
  case Nil
  show ?case by auto
next
  case (Cons x xs)
  show ?case
  proof (cases x)
    case None
    then show ?thesis by auto
  next
    case (Some v)
    with Cons show ?thesis by (cases ys) (auto split: option.splits)
  qed
qed

lemma jobsAt_Some:
  "jobsAt h r = Some jobs \<longleftrightarrow>
     (\<exists>refs. deref h r = Some (JobArray refs) \<and> map (jobAt h) refs = map Some jobs)"
  by (auto simp: jobsAt_def those_Some split: option.splits obj.splits)

lemma jobAt_map_append:
  "map (jobAt h) refs = map Some jobs \<Longrightarrow> map (jobAt (h @ xs)) refs = map Some jobs"
proof (induction refs arbitrary: jobs)
  case Nil
  then show ?case by simp
next
  case (Cons ref refs)
  then obtain j js where "jobs = j # js" "jobAt h ref = Some j" "map (jobAt h) refs = map Some js"
    by (cases jobs) auto
  with Cons.IH [of js] show ?case by (simp add: jobAt_append)
qed

lemma jobsAt_append:
  assumes "jobsAt h r = Some jobs"
  shows "jobsAt (h @ xs) r = Some jobs"
proof -
  from assms obtain refs where d: "deref h r = Some (JobArray refs)"
    and m: "map (jobAt h) refs = map Some jobs"
    by (auto simp: jobsAt_Some)
  from d have "r < length h" by (simp add: deref_def split: if_splits)
  with d have "deref (h @ xs) r = Some (JobArray refs)" by (simp add: deref_append)
  with jobAt_map_append [OF m, of xs] show ?thesis by (auto simp: jobsAt_Some)
qed

lemma tallyStatus_fold:
  "map (jobAt h) refs = map Some jobs \<Longrightarrow>
   foldl (tallyStatus (length h)) (h @ [StatusTally acc]) refs =
     h @ [StatusTally (foldl (\<lambda>acc job. increment acc (status job)) acc jobs)]"
proof (induction refs arbitrary: jobs acc)
  case Nil
  then show ?case by simp
next
  case (Cons ref refs)
  then obtain j js where js: "jobs = j # js" and j: "jobAt h ref = Some j"
    and rest: "map (jobAt h) refs = map Some js"
    by (cases jobs) auto
  from j have "deref (h @ [StatusTally acc]) ref = Some (JobObj j)"
    by (simp add: jobAt_Some deref_append)
  then have "tallyStatus (length h) (h @ [StatusTally acc]) ref =
      h @ [StatusTally (increment acc (status j))]"
    by (simp add: deref_last)
  with Cons.IH [OF rest] show ?case by (simp add: js del: tallyStatus.simps)
qed

lemma tallyMonth_thrown: "foldl (tallyMonth newDate b) (h, Some e) refs = (h, Some e)"
  by (induction refs) simp_all

lemma tallyMonth_fold:
  "map (jobAt h) refs = map Some jobs \<Longrightarrow>
   \<exists>acc'. foldl (tallyMonth newDate (length h)) (h @ [MonthTally acc], None) refs =
            (h @ [MonthTally acc'],
             case foldl (monthlyStep newDate) (Inr acc) jobs of Inl e \<Rightarrow> Some e | Inr _ \<Rightarrow> None)
        \<and> (\<forall>months. foldl (monthlyStep newDate) (Inr acc) jobs = Inr months \<longrightarrow> acc' = months)"
proof (induction refs arbitrary: jobs acc)
  case Nil
  then show ?case by simp
next
  case (Cons ref refs)
  then obtain j js where js: "jobs = j # js" and j: "jobAt h ref = Some j"
    and rest: "map (jobAt h) refs = map Some js"
    by (cases jobs) auto
  from j have d: "deref (h @ [MonthTally acc]) ref = Some (JobObj j)"
    by (simp add: jobAt_Some deref_append)
  show ?case
  proof (cases "dateApplied j = []")
    case True
    with d have "tallyMonth newDate (length h) (h @ [MonthTally acc], None) ref =
        (h @ [MonthTally acc], None)"
      by (simp add: deref_last)
    with Cons.IH [OF rest, of acc] True show ?thesis
      by (simp add: js del: tallyMonth.simps)
  next
    case False
    show ?thesis
    proof (cases "format_MMM_yyyy (newDate (dateApplied j))")
      case (Inl e)
      with d False have "tallyMonth newDate (length h) (h @ [MonthTally acc], None) ref =
          (h @ [MonthTally acc], Some e)"
        by (simp add: deref_last)
      with Inl False show ?thesis
        by (simp add: js tallyMonth_thrown monthlyStep_error del: tallyMonth.simps)
    next
      case (Inr month)
      with d False have "tallyMonth newDate (length h) (h @ [MonthTally acc], None) ref =
          (h @ [MonthTally (increment acc month)], None)"
        by (simp add: deref_last)
      with Cons.IH [OF rest, of "increment acc month"] Inr False show ?thesis
        by (simp add: js del: tallyMonth.simps)
    qed
  qed
qed

lemma console_of_call:
  "fst (Dashboard_useMemo dark newDate jobs console) = console @ debugLines dark jobs"
proof (cases "jobs = []")
  case True
  then show ?thesis by (simp add: Dashboard_useMemo_def debugLines_def)
next
  case False
  have "map (\<lambda>s. LogStatus (name s) (value_sd s))
          (map (statusEntry dark (statusCounts jobs)) STATUS_ORDER) =
        map (\<lambda>st. LogStatus st (countStatus jobs st)) STATUS_ORDER"
    by (simp add: statusEntry_def orZero_statusCounts Let_def)
  with False show ?thesis
    unfolding Dashboard_useMemo_def debugLines_def Let_def statusData_closed
    by (simp split: sum.splits)
qed

lemma store_call:
  assumes "jobsAt h r = Some jobs"
  shows "\<exists>h'. Dashboard_useMemo_store dark newDate r (h, console) =
             ((h', fst (Dashboard_useMemo dark newDate jobs console)),
              snd (Dashboard_useMemo dark newDate jobs console))
           \<and> take (length h) h' = h"
proof -
  from assms obtain refs where d: "deref h r = Some (JobArray refs)"
    and m: "map (jobAt h) refs = map Some jobs"
    by (auto simp: jobsAt_Some)
  from m have len: "length refs = length jobs" by (metis length_map)
  show ?thesis
  proof (cases "jobs = []")
    case True
    with len d show ?thesis
      by (simp add: Dashboard_useMemo_store_def Dashboard_useMemo_def)
  next
    case False
    with len have refs: "length refs \<noteq> 0" "refs \<noteq> []" by auto
    define h2 where "h2 = h @ [StatusTally (statusCounts jobs)]"
    have s1: "foldl (tallyStatus (length h)) (h @ [StatusTally []]) refs = h2"
      using tallyStatus_fold [OF m, of "[]"] by (simp add: h2_def statusCounts_def)
    have m2: "map (jobAt h2) refs = map Some jobs"
      unfolding h2_def using m by (rule jobAt_map_append)
    from tallyMonth_fold [OF m2, of newDate "[]"] obtain acc' where
      s2: "foldl (tallyMonth newDate (length h2)) (h2 @ [MonthTally []], None) refs =
            (h2 @ [MonthTally acc'],
             case monthlyCounts newDate jobs of Inl e \<Rightarrow> Some e | Inr _ \<Rightarrow> None)"
      and s3: "\<forall>months. monthlyCounts newDate jobs = Inr months \<longrightarrow> acc' = months"
      by (auto simp: monthlyCounts_def)
    have t: "take (length h) (h2 @ [MonthTally acc']) = h" by (simp add: h2_def)
    have c: "deref h2 (length h) = Some (StatusTally (statusCounts jobs))"
      by (simp add: h2_def deref_last)
    show ?thesis
    proof (cases "monthlyCounts newDate jobs")
      case (Inl e)
      with False refs d s1 s2 c t show ?thesis
        by (simp add: Dashboard_useMemo_store_def Dashboard_useMemo_def allocate_def Let_def
            del: tallyStatus.simps tallyMonth.simps)
    next
      case (Inr months)
      with s3 have "acc' = months" by simp
      with Inr False refs d s1 s2 c t len show ?thesis
        by (simp add: Dashboard_useMemo_store_def Dashboard_useMemo_def allocate_def Let_def
            deref_last del: tallyStatus.simps tallyMonth.simps)
    qed
  qed
qed

text \<open>
  The statement C9 as written says that a call has no side effect and does no
  input or output. On a list that is not empty the callback calls \<^verbatim>\<open>console.log\<close> six
  times: once for each status and once for \<^verbatim>\<open>statusData\<close>.
\<close>

theorem console_written_counterexample:
  "fst (Dashboard_useMemo False isoDate [exampleJob ''2024-03-15'' Applied] []) =
     [LogStatus Applied 1, LogStatus Interview 0, LogStatus Offer 0, LogStatus Accepted 0,
      LogStatus Rejected 0,
      LogStatusData
        [\<lparr>name = Applied, value_sd = 1, color = ''#4e73df'', lightColor = ''#4e73df33''\<rparr>,
         \<lparr>name = Interview, value_sd = 0, color = ''#f6c23e'', lightColor = ''#f6c23e33''\<rparr>,
         \<lparr>name = Offer, value_sd = 0, color = ''#36b9cc'', lightColor = ''#36b9cc33''\<rparr>,
         \<lparr>name = Accepted, value_sd = 0, color = ''#1cc88a'', lightColor = ''#1cc88a33''\<rparr>,
         \<lparr>name = Rejected, value_sd = 0, color = ''#e74a3b'', lightColor = ''#e74a3b33''\<rparr>]]"
  by (simp add: Dashboard_useMemo_def Let_def STATUS_ORDER_def statusEntry_def statusCounts_def
      orZero_def exampleJob_def split: sum.splits)

text \<open>
  C9, amended: let the reference of the callback be that of an array of record objects
  in the store. Then the call returns the value determined by the list of these
  records, the mode of the theme and the host's \<^verbatim>\<open>Date\<close> alone, whatever else the store
  and the console hold, so two calls on the same list give the same value; every
  object that was in the store before the call is as it was after it, the array and
  its records among them; and the one effect that remains is on the console, to which
  the call appends, for a list that is not empty, six debug values (a line for each
  of the five statuses with its count, then \<^verbatim>\<open>statusData\<close>), also when it throws
  afterwards, and nothing for the empty list.
\<close>

theorem call_changes_only_the_console:
  assumes "jobsAt h r = Some jobs"
  shows "\<exists>h'. Dashboard_useMemo_store dark newDate r (h, console) =
             ((h', console @ debugLines dark jobs), metricsOf dark newDate jobs)
           \<and> take (length h) h' = h
           \<and> jobsAt h' r = Some jobs
           \<and> length (debugLines dark jobs) = (if jobs = [] then 0 else 6)"
proof -
  from store_call [OF assms, of dark newDate console] obtain h' where
    call: "Dashboard_useMemo_store dark newDate r (h, console) =
             ((h', fst (Dashboard_useMemo dark newDate jobs console)),
              snd (Dashboard_useMemo dark newDate jobs console))"
    and frame: "take (length h) h' = h"
    by blast
  have v: "snd (Dashboard_useMemo dark newDate jobs console) = metricsOf dark newDate jobs"
    by (simp add: Dashboard_useMemo_def metricsOf_def Let_def split: sum.splits)
  have "h' = h @ drop (length h) h'"
    using frame append_take_drop_id [of "length h" h'] by simp
  then have "jobsAt h' r = Some jobs"
    using jobsAt_append [OF assms, of "drop (length h) h'"] by simp
  moreover have "length (debugLines dark jobs) = (if jobs = [] then 0 else 6)"
    by (simp add: debugLines_def STATUS_ORDER_def)
  ultimately show ?thesis
    using call frame by (simp add: v console_of_call)
qed

theorem call_changes_only_the_console_witness:
  "jobsAt exampleStore 3 = Some [exampleJob ''2024-03-15'' Applied, exampleJob [] Interview]
   \<and> (\<exists>h'. Dashboard_useMemo_store False isoDate 3 (exampleStore, [LogStatus Offer 7]) =
             ((h', [LogStatus Offer 7] @
                   debugLines False [exampleJob ''2024-03-15'' Applied, exampleJob [] Interview]),
              metricsOf False isoDate [exampleJob ''2024-03-15'' Applied, exampleJob [] Interview])
           \<and> take (length exampleStore) h' = exampleStore
           \<and> jobsAt h' 3 = Some [exampleJob ''2024-03-15'' Applied, exampleJob [] Interview]
           \<and> length (debugLines False
                        [exampleJob ''2024-03-15'' Applied, exampleJob [] Interview]) = 6)"
proof -
  have h: "jobsAt exampleStore 3 =
      Some [exampleJob ''2024-03-15'' Applied, exampleJob [] Interview]"
    by (simp add: jobsAt_def jobAt_def deref_def exampleStore_def)
  from call_changes_only_the_console [OF h, of False isoDate "[LogStatus Offer 7]"] h
  show ?thesis by simp
qed

section \<open>The status of a record created through the form\<close>

lemma Applied_item: "Applied \<in> set JobForm_statusItems"
  by (simp add: JobForm_statusItems_def)

lemma handleSubmit_status:
  assumes "status_form s \<in> set JobForm_statusItems" and "handleSubmit today ok s = (s', sent)"
  shows "status_form s' \<in> set JobForm_statusItems"
    and "\<forall>j. sent = Some j \<longrightarrow> status_new j \<in> set JobForm_statusItems"
proof -
  show "status_form s' \<in> set JobForm_statusItems"
    using assms
    by (auto simp: handleSubmit_def handleClose_def Let_def Applied_item split: if_splits)
  show "\<forall>j. sent = Some j \<longrightarrow> status_new j \<in> set JobForm_statusItems"
    using assms
    by (auto simp: handleSubmit_def Let_def split: if_splits)
qed

lemma formStep_status:
  assumes "status_form s \<in> set JobForm_statusItems" and "formStep today s ev = (s', sent)"
  shows "status_form s' \<in> set JobForm_statusItems"
    and "\<forall>j. sent = Some j \<longrightarrow> status_new j \<in> set JobForm_statusItems"
proof -
  show "status_form s' \<in> set JobForm_statusItems"
  proof (cases ev)
    case (SelectStatus i)
    with assms show ?thesis by (auto split: if_splits)
  next
    case (Submit ok)
    with assms handleSubmit_status(1) [of s today ok s' sent] show ?thesis by simp
  next
    case Close
    with assms show ?thesis by (auto simp: handleClose_def Applied_item)
  qed (use assms in auto)
  show "\<forall>j. sent = Some j \<longrightarrow> status_new j \<in> set JobForm_statusItems"
  proof (cases ev)
    case (Submit ok)
    with assms handleSubmit_status(2) [of s today ok s' sent] show ?thesis by simp
  qed (use assms in auto)
qed

lemma runForm_status:
  assumes "status_form s \<in> set JobForm_statusItems" and "j \<in> set (snd (runForm s evs))"
  shows "status_new j \<in> set JobForm_statusItems"
  using assms
proof (induction evs arbitrary: s)
  case Nil
  then show ?case by simp
next
  case (Cons tev evs)
  obtain today ev where tev: "tev = (today, ev)" by (cases tev)
  obtain s' sent where st: "formStep today s ev = (s', sent)" by (cases "formStep today s ev")
  obtain s'' rest where r: "runForm s' evs = (s'', rest)" by (cases "runForm s' evs")
  note inv = formStep_status [OF Cons.prems(1) st]
  from Cons.prems(2) have "(\<exists>j'. sent = Some j' \<and> j = j') \<or> j \<in> set rest"
    by (auto simp: tev st r split: option.splits)
  then show ?case
  proof
    assume "\<exists>j'. sent = Some j' \<and> j = j'"
    with inv(2) show ?thesis by blast
  next
    assume "j \<in> set rest"
    then have "j \<in> set (snd (runForm s' evs))" by (simp add: r)
    with Cons.IH [OF inv(1)] show ?thesis .
  qed
qed

text \<open>
  C10: in every session of the creation form, whatever the events, the status of every
  record passed to \<^verbatim>\<open>addJob\<close> is one of Applied, Interview, Offer, Rejected, never
  Accepted: the form starts with Applied and its selector has no item Accepted, though
  the selector of a row of the list has one.
\<close>

theorem form_never_sends_Accepted:
  assumes "j \<in> set (snd (runForm (initialForm today) evs))"
  shows "status_new j \<in> {Applied, Interview, Offer, Rejected}
       \<and> status_new j \<noteq> Accepted
       \<and> status_form (initialForm today) = Applied
       \<and> Accepted \<notin> set JobForm_statusItems
       \<and> Accepted \<in> set JobList_statusItems"
proof -
  have "status_form (initialForm today) \<in> set JobForm_statusItems"
    by (simp add: initialForm_def JobForm_statusItems_def)
  from runForm_status [OF this assms] show ?thesis
    by (auto simp: JobForm_statusItems_def JobList_statusItems_def initialForm_def)
qed

theorem form_never_sends_Accepted_witness:
  "exampleSent \<in> set (snd (runForm (initialForm ''2024-05-01'') exampleSession))
   \<and> status_new exampleSent \<in> {Applied, Interview, Offer, Rejected}
   \<and> status_new exampleSent \<noteq> Accepted
   \<and> status_form (initialForm ''2024-05-01'') = Applied
   \<and> Accepted \<notin> set JobForm_statusItems
   \<and> Accepted \<in> set JobList_statusItems"
proof -
  have h: "exampleSent \<in> set (snd (runForm (initialForm ''2024-05-01'') exampleSession))"
    by (simp add: exampleSession_def exampleSent_def initialForm_def handleSubmit_def
        handleClose_def trim_def isWhiteSpace_def JobForm_statusItems_def Let_def)
  from form_never_sends_Accepted [OF h] h show ?thesis by blast
qed

end
